theory Spec2Isabelle
  imports Main "HOL-Library.Word"
begin

unbundle bit_operations_syntax

section \<open>Machine model\<close>

text \<open>
  The runtime targets WASM32: \<open>usize\<close> and \<open>u32\<close> are 32-bit words whose arithmetic
  wraps around, linear memory is byte addressed, multi-byte values are little endian.
  Linear memory is modelled as a total map over the whole 32-bit address space.
\<close>

type_synonym usize = "32 word"
type_synonym u32 = "32 word"
type_synonym u8 = "8 word"
type_synonym memory = "usize \<Rightarrow> u8"

text \<open>\<open>i32.store\<close>: four bytes, least significant first.\<close>

definition store32 :: "memory \<Rightarrow> usize \<Rightarrow> u32 \<Rightarrow> memory" where
  "store32 m a v =
     m(a := ucast v,
       a + 1 := ucast (drop_bit 8 v),
       a + 2 := ucast (drop_bit 16 v),
       a + 3 := ucast (drop_bit 24 v))"

text \<open>\<open>i32.load\<close>.\<close>

definition load32 :: "memory \<Rightarrow> usize \<Rightarrow> u32" where
  "load32 m a =
     ucast (m a) OR push_bit 8 (ucast (m (a + 1))) OR
     push_bit 16 (ucast (m (a + 2))) OR push_bit 24 (ucast (m (a + 3)))"

text \<open>\<open>i32.shl\<close>: the shift count is taken modulo 32.\<close>

definition shl :: "u32 \<Rightarrow> u32 \<Rightarrow> u32" where
  "shl x k = push_bit (unat k mod 32) x"

text \<open>\<open>i32.clz\<close>: the number of leading zero bits, scanning down from bit 31.\<close>

fun clz_from :: "nat \<Rightarrow> u32 \<Rightarrow> nat" where
  "clz_from 0 x = 0"
| "clz_from (Suc i) x = (if bit x i then 0 else Suc (clz_from i x))"

definition clz :: "u32 \<Rightarrow> u32" where
  "clz x = of_nat (clz_from 32 x)"

text \<open>The \<open>select\<close> builtin: the first operand if the condition holds, else the second.\<close>

definition select :: "'a \<Rightarrow> 'a \<Rightarrow> bool \<Rightarrow> 'a" where
  "select ifTrue ifFalse condition = (if condition then ifTrue else ifFalse)"

section \<open>Build configuration and state\<close>

text \<open>
  Everything the runtime takes from outside is a field of the environment: which stubs
  the build defines (\<open>isDefined(...)\<close>), whether assertions are compiled out
  (\<open>ASC_NO_ASSERT\<close>), the start of the heap, the layout of the array classes (declared in
  the standard library's array and arraybuffer modules), the class id of \<open>ArrayBuffer\<close>,
  and the backing allocator behind \<open>memory.allocate\<close> and \<open>memory.free\<close>, which keeps
  its bookkeeping in a state of its own and answers \<open>None\<close> when it traps.
\<close>

record 'h env =
  def_ref_collect :: bool
  def_ref_register :: bool
  def_ref_link :: bool
  def_gc_register :: bool
  def_gc_link :: bool
  def_gc_mark :: bool
  def_gc_collect :: bool
  ASC_NO_ASSERT :: bool
  HEAP_BASE :: usize
  offsetof_Array :: usize
  offsetof_data :: usize
  offsetof_dataStart :: usize
  offsetof_dataLength :: usize
  offsetof_length :: usize
  classId_ArrayBuffer :: u32
  mem_allocate :: "'h \<Rightarrow> usize \<Rightarrow> (usize \<times> 'h) option"
  mem_free :: "'h \<Rightarrow> usize \<Rightarrow> 'h"

text \<open>
  Calls that leave the runtime are recorded in order: the four operations of the backing
  allocator and the hooks of the collector.
\<close>

datatype event =
    Mem_allocate usize usize
  | Mem_free usize
  | Mem_copy usize usize usize
  | Mem_fill usize u8 usize
  | Ref_register usize
  | Ref_link usize usize
  | Gc_register usize
  | Gc_link usize usize
  | Gc_mark usize
  | Gc_collect
  | WARNING string

datatype error =
    Trap
  | Assertion_failed
  | ERROR string
  | Undefined_stub string

record 'h state =
  mem :: memory
  heap :: 'h
  trace :: "event list"

section \<open>Header and size classing\<close>

text \<open>
  \<open>AL_MASK\<close> and \<open>MAX_SIZE_32\<close> come from the allocator utilities: 8-byte alignment and
  a largest block of \<open>2^30\<close> bytes, as the comments of \<open>HEADER\<close> and \<open>adjust\<close> and the
  compiled arena allocator state them.
\<close>

definition AL_MASK :: usize where
  "AL_MASK = 7"

definition MAX_SIZE_32 :: usize where
  "MAX_SIZE_32 = push_bit 30 1"

text \<open>Field offsets of \<open>HEADER\<close>: two \<open>u32\<close> followed by two \<open>usize\<close>.\<close>

definition offsetof_HEADER :: usize where
  "offsetof_HEADER = 16"

definition offsetof_HEADER_classId :: usize where
  "offsetof_HEADER_classId = 0"

definition offsetof_HEADER_payloadSize :: usize where
  "offsetof_HEADER_payloadSize = 4"

definition offsetof_HEADER_reserved1 :: usize where
  "offsetof_HEADER_reserved1 = 8"

definition offsetof_HEADER_reserved2 :: usize where
  "offsetof_HEADER_reserved2 = 12"

definition HEADER_SIZE :: "'h env \<Rightarrow> usize" where
  "HEADER_SIZE env =
     (if def_ref_collect env
      then (offsetof_HEADER + AL_MASK) AND NOT AL_MASK
      else (offsetof_HEADER_reserved1 + AL_MASK) AND NOT AL_MASK)"

definition HEADER_MAGIC :: u32 where
  "HEADER_MAGIC = 0xA55E4B17"

definition MAX_BYTELENGTH :: "'h env \<Rightarrow> usize" where
  "MAX_BYTELENGTH env = MAX_SIZE_32 - HEADER_SIZE env"

definition adjust :: "'h env \<Rightarrow> usize \<Rightarrow> usize" where
  "adjust env payloadSize =
     shl 1 (32 - clz (payloadSize + HEADER_SIZE env - 1))"

section \<open>Memory operations\<close>

text \<open>
  \<open>memory.copy\<close> has the semantics of \<open>memmove\<close> and \<open>memory.fill\<close> of \<open>memset\<close>;
  an address \<open>a\<close> lies in the range of \<open>n\<close> bytes from \<open>dest\<close> when \<open>a - dest < n\<close>
  in wrapping arithmetic.
\<close>

definition copy_bytes :: "memory \<Rightarrow> usize \<Rightarrow> usize \<Rightarrow> usize \<Rightarrow> memory" where
  "copy_bytes m dest src n = (\<lambda>a. if a - dest < n then m (src + (a - dest)) else m a)"

definition fill_bytes :: "memory \<Rightarrow> usize \<Rightarrow> u8 \<Rightarrow> usize \<Rightarrow> memory" where
  "fill_bytes m dest c n = (\<lambda>a. if a - dest < n then c else m a)"

definition record_event :: "event \<Rightarrow> 'h state \<Rightarrow> 'h state" where
  "record_event e s = s\<lparr>trace := trace s @ [e]\<rparr>"

definition memory_allocate :: "'h env \<Rightarrow> usize \<Rightarrow> 'h state \<Rightarrow> error + (usize \<times> 'h state)" where
  "memory_allocate env sz s =
     (case mem_allocate env (heap s) sz of
        None \<Rightarrow> Inl Trap
      | Some (ptr, h) \<Rightarrow> Inr (ptr, record_event (Mem_allocate sz ptr) (s\<lparr>heap := h\<rparr>)))"

definition memory_free :: "'h env \<Rightarrow> usize \<Rightarrow> 'h state \<Rightarrow> 'h state" where
  "memory_free env ptr s = record_event (Mem_free ptr) (s\<lparr>heap := mem_free env (heap s) ptr\<rparr>)"

definition memory_copy :: "usize \<Rightarrow> usize \<Rightarrow> usize \<Rightarrow> 'h state \<Rightarrow> 'h state" where
  "memory_copy dest src n s =
     record_event (Mem_copy dest src n) (s\<lparr>mem := copy_bytes (mem s) dest src n\<rparr>)"

definition memory_fill :: "usize \<Rightarrow> u8 \<Rightarrow> usize \<Rightarrow> 'h state \<Rightarrow> 'h state" where
  "memory_fill dest c n s =
     record_event (Mem_fill dest c n) (s\<lparr>mem := fill_bytes (mem s) dest c n\<rparr>)"

definition load_u32 :: "'h state \<Rightarrow> usize \<Rightarrow> u32" where
  "load_u32 s a = load32 (mem s) a"

definition store_u32 :: "usize \<Rightarrow> u32 \<Rightarrow> 'h state \<Rightarrow> 'h state" where
  "store_u32 a v s = s\<lparr>mem := store32 (mem s) a v\<rparr>"

text \<open>Reading and writing the fields of the \<open>HEADER\<close> at a given address.\<close>

definition get_classId :: "'h state \<Rightarrow> usize \<Rightarrow> u32" where
  "get_classId s header = load_u32 s (header + offsetof_HEADER_classId)"

definition get_payloadSize :: "'h state \<Rightarrow> usize \<Rightarrow> u32" where
  "get_payloadSize s header = load_u32 s (header + offsetof_HEADER_payloadSize)"

definition get_reserved1 :: "'h state \<Rightarrow> usize \<Rightarrow> usize" where
  "get_reserved1 s header = load_u32 s (header + offsetof_HEADER_reserved1)"

definition get_reserved2 :: "'h state \<Rightarrow> usize \<Rightarrow> usize" where
  "get_reserved2 s header = load_u32 s (header + offsetof_HEADER_reserved2)"

definition set_classId :: "usize \<Rightarrow> u32 \<Rightarrow> 'h state \<Rightarrow> 'h state" where
  "set_classId header v = store_u32 (header + offsetof_HEADER_classId) v"

definition set_payloadSize :: "usize \<Rightarrow> u32 \<Rightarrow> 'h state \<Rightarrow> 'h state" where
  "set_payloadSize header v = store_u32 (header + offsetof_HEADER_payloadSize) v"

definition set_reserved1 :: "usize \<Rightarrow> usize \<Rightarrow> 'h state \<Rightarrow> 'h state" where
  "set_reserved1 header v = store_u32 (header + offsetof_HEADER_reserved1) v"

definition set_reserved2 :: "usize \<Rightarrow> usize \<Rightarrow> 'h state \<Rightarrow> 'h state" where
  "set_reserved2 header v = store_u32 (header + offsetof_HEADER_reserved2) v"

section \<open>Collector hooks\<close>

text \<open>
  The collector is a stub that records each call. \<open>__ref_register\<close> is called
  unguarded in \<open>reallocate\<close>; a build that does not define it has no such function.
\<close>

definition ref_register :: "'h env \<Rightarrow> usize \<Rightarrow> 'h state \<Rightarrow> error + 'h state" where
  "ref_register env ref s =
     (if def_ref_register env then Inr (record_event (Ref_register ref) s)
      else Inl (Undefined_stub ''__ref_register''))"

text \<open>
  Modelled from the spec: the code the compiler emits for the assignment of a managed
  reference to a field of a managed object is not among the sources. The spec has field
  assignment invoke \<open>link(child, parent)\<close> whenever a collector is compiled in.
\<close>

definition ref_link :: "'h env \<Rightarrow> usize \<Rightarrow> usize \<Rightarrow> 'h state \<Rightarrow> 'h state" where
  "ref_link env ref parentRef s =
     (if def_ref_link env then record_event (Ref_link ref parentRef) s else s)"

text \<open>\<open>assert\<close> aborts unless assertions are compiled out.\<close>

definition assert :: "'h env \<Rightarrow> bool \<Rightarrow> error + unit" where
  "assert env isTrueish = (if ASC_NO_ASSERT env \<or> isTrueish then Inr () else Inl Assertion_failed)"

section \<open>The runtime\<close>

definition allocate :: "'h env \<Rightarrow> usize \<Rightarrow> 'h state \<Rightarrow> error + (usize \<times> 'h state)" where
  "allocate env payloadSize s =
     (case memory_allocate env (adjust env payloadSize) s of
        Inl e \<Rightarrow> Inl e
      | Inr (header, s1) \<Rightarrow>
          let s2 = set_classId header HEADER_MAGIC s1;
              s3 = set_payloadSize header payloadSize s2;
              s4 = (if def_ref_collect env
                    then set_reserved2 header 0 (set_reserved1 header 0 s3)
                    else s3)
          in Inr (header + HEADER_SIZE env, s4))"

definition reallocate ::
  "'h env \<Rightarrow> usize \<Rightarrow> usize \<Rightarrow> 'h state \<Rightarrow> error + (usize \<times> 'h state)" where
  "reallocate env ref newPayloadSize s =
     (let header = ref - HEADER_SIZE env;
          payloadSize = get_payloadSize s header
      in if payloadSize < newPayloadSize then
           let newAdjustedSize = adjust env newPayloadSize
           in if select (adjust env payloadSize) 0 (ref > HEAP_BASE env) < newAdjustedSize then
                (case memory_allocate env newAdjustedSize s of
                   Inl e \<Rightarrow> Inl e
                 | Inr (newHeader, s1) \<Rightarrow>
                     let s2 = set_classId newHeader (get_classId s1 header) s1;
                         s3 = (if def_ref_collect env
                               then set_reserved2 newHeader 0 (set_reserved1 newHeader 0 s2)
                               else s2);
                         newRef = newHeader + HEADER_SIZE env;
                         s4 = memory_copy newRef ref payloadSize s3;
                         s5 = memory_fill (newRef + payloadSize) 0 (newPayloadSize - payloadSize) s4
                     in case (if get_classId s5 header = HEADER_MAGIC then
                                (case assert env (ref > HEAP_BASE env) of
                                   Inl e \<Rightarrow> Inl e
                                 | Inr _ \<Rightarrow> Inr (memory_free env header s5))
                              else if def_ref_collect env then ref_register env ref s5
                              else Inr s5) of
                          Inl e \<Rightarrow> Inl e
                        | Inr s6 \<Rightarrow> Inr (newRef, set_payloadSize newHeader newPayloadSize s6))
              else
                Inr (ref, set_payloadSize header newPayloadSize
                            (memory_fill (ref + payloadSize) 0 (newPayloadSize - payloadSize) s))
         else Inr (ref, set_payloadSize header newPayloadSize s))"

text \<open>
  An abort of \<open>discard\<close> is returned together with the state at the abort, so that the
  calls made before it stay visible.
\<close>

definition discard :: "'h env \<Rightarrow> usize \<Rightarrow> 'h state \<Rightarrow> (error \<times> 'h state) + 'h state" where
  "discard env ref s =
     (if \<not> ASC_NO_ASSERT env then
        if \<not> ref > HEAP_BASE env then Inl (Assertion_failed, s)
        else let header = ref - HEADER_SIZE env
             in if \<not> get_classId s header = HEADER_MAGIC then Inl (Assertion_failed, s)
                else Inr (memory_free env header s)
      else Inr (memory_free env (ref - HEADER_SIZE env) s))"

definition register :: "'h env \<Rightarrow> usize \<Rightarrow> u32 \<Rightarrow> 'h state \<Rightarrow> error + (usize \<times> 'h state)" where
  "register env ref classId s =
     (case (if \<not> ASC_NO_ASSERT env then
              if \<not> ref > HEAP_BASE env then Inl Assertion_failed
              else let header = ref - HEADER_SIZE env
                   in if \<not> get_classId s header = HEADER_MAGIC then Inl Assertion_failed
                      else Inr (set_classId header classId s)
            else Inr (set_classId (ref - HEADER_SIZE env) classId s)) of
        Inl e \<Rightarrow> Inl e
      | Inr s1 \<Rightarrow>
          Inr (ref, if def_ref_register env then record_event (Ref_register ref) s1 else s1))"

definition makeArray ::
  "'h env \<Rightarrow> u32 \<Rightarrow> u32 \<Rightarrow> usize \<Rightarrow> usize \<Rightarrow> 'h state \<Rightarrow> error + (usize \<times> 'h state)" where
  "makeArray env capacity cid alignLog2 source s =
     (case allocate env (offsetof_Array env) s of
        Inl e \<Rightarrow> Inl e
      | Inr (r1, s1) \<Rightarrow>
     (case register env r1 cid s1 of
        Inl e \<Rightarrow> Inl e
      | Inr (array, s2) \<Rightarrow>
     (let bufferSize = shl capacity alignLog2
      in case allocate env (shl capacity alignLog2) s2 of
        Inl e \<Rightarrow> Inl e
      | Inr (r2, s3) \<Rightarrow>
     (case register env r2 (classId_ArrayBuffer env) s3 of
        Inl e \<Rightarrow> Inl e
      | Inr (buffer, s4) \<Rightarrow>
          let s5 = ref_link env buffer array (store_u32 (array + offsetof_data env) buffer s4);
              s6 = store_u32 (array + offsetof_dataStart env) buffer s5;
              s7 = store_u32 (array + offsetof_dataLength env) bufferSize s6;
              s8 = store_u32 (array + offsetof_length env) capacity s7;
              s9 = (if source \<noteq> 0 then memory_copy buffer source bufferSize s8 else s8)
          in Inr (array, s9)))))"

section \<open>The garbage collector interface\<close>

definition gc_register :: "'h env \<Rightarrow> usize \<Rightarrow> 'h state \<Rightarrow> error + 'h state" where
  "gc_register env ref s =
     (if def_gc_register env then Inr (record_event (Gc_register ref) s)
      else Inl (ERROR ''missing implementation: gc.register''))"

definition gc_link :: "'h env \<Rightarrow> usize \<Rightarrow> usize \<Rightarrow> 'h state \<Rightarrow> error + 'h state" where
  "gc_link env ref parentRef s =
     (if def_gc_link env then Inr (record_event (Gc_link ref parentRef) s)
      else Inl (ERROR ''missing implementation: gc.link''))"

definition gc_mark :: "'h env \<Rightarrow> usize \<Rightarrow> 'h state \<Rightarrow> error + 'h state" where
  "gc_mark env ref s =
     (if def_gc_mark env then Inr (record_event (Gc_mark ref) s)
      else Inl (ERROR ''missing implementation: gc.mark''))"

definition gc_collect :: "'h env \<Rightarrow> 'h state \<Rightarrow> error + 'h state" where
  "gc_collect env s =
     (if def_gc_collect env then Inr (record_event Gc_collect s)
      else Inr (record_event (WARNING ''missing implementation: gc.collect'') s))"

section \<open>A concrete build\<close>

text \<open>
  The arena allocator as compiled into the export test: it traps on a request above
  \<open>2^30\<close> bytes, otherwise hands out the current offset and advances it past the
  request (at least one byte), rounded up to 8; growing linear memory is taken to
  succeed. Its free does nothing. The heap starts at 48 in that module. The array
  classes get the layout of four 32-bit fields in the order \<open>data\<close>, \<open>dataStart\<close>,
  \<open>dataLength\<close>, \<open>length_\<close>, and \<open>ArrayBuffer\<close> a class id of its own.
\<close>

definition arena_mem_allocate :: "usize \<Rightarrow> usize \<Rightarrow> (usize \<times> usize) option" where
  "arena_mem_allocate offset sz =
     (if sz > 1073741824 then None
      else Some (offset, (offset + select sz 1 (sz > 1) + 7) AND -8))"

definition arena_mem_free :: "usize \<Rightarrow> usize \<Rightarrow> usize" where
  "arena_mem_free offset ptr = offset"

definition arena_env :: "bool \<Rightarrow> bool \<Rightarrow> usize env" where
  "arena_env gc noAssert =
     \<lparr>def_ref_collect = gc, def_ref_register = gc, def_ref_link = gc,
      def_gc_register = gc, def_gc_link = gc, def_gc_mark = gc, def_gc_collect = gc,
      ASC_NO_ASSERT = noAssert, HEAP_BASE = 48,
      offsetof_Array = 16, offsetof_data = 0, offsetof_dataStart = 4,
      offsetof_dataLength = 8, offsetof_length = 12, classId_ArrayBuffer = 4,
      mem_allocate = arena_mem_allocate, mem_free = arena_mem_free\<rparr>"

definition arena_start :: "u8 \<Rightarrow> usize state" where
  "arena_start b = \<lparr>mem = (\<lambda>a. b), heap = 48, trace = []\<rparr>"

section \<open>Facts about words, bits and bytes\<close>

lemma nat_bit_lt: "(n::nat) < 2 ^ Suc i \<Longrightarrow> \<not> bit n i \<Longrightarrow> n < 2 ^ i"
proof -
  assume a: "n < 2 ^ Suc i" and b: "\<not> bit n i"
  have "n div 2 ^ i < 2" using a by (simp add: less_mult_imp_div_less mult.commute)
  moreover have "even (n div 2 ^ i)" using b by (simp add: bit_iff_odd)
  ultimately have "n div 2 ^ i = 0" by (cases "n div 2 ^ i") auto
  then show ?thesis by (simp add: div_eq_0_iff)
qed

lemma nat_bit_ge: "bit (n::nat) i \<Longrightarrow> 2 ^ i \<le> n"
proof -
  assume "bit n i"
  then have "odd (n div 2 ^ i)" by (simp add: bit_iff_odd)
  then have "n div 2 ^ i \<noteq> 0" by (rule contrapos_nn) simp
  then show ?thesis by (simp add: div_eq_0_iff not_less)
qed

text \<open>
  Below bit \<open>n\<close>, \<open>clz_from n\<close> counts the zero bits above the highest set bit: it
  brackets the value between two consecutive powers of two.
\<close>

lemma clz_from_bounds:
  "unat x < 2 ^ n \<Longrightarrow>
     clz_from n x \<le> n \<and> unat x < 2 ^ (n - clz_from n x) \<and>
     (x \<noteq> 0 \<longrightarrow> clz_from n x < n \<and> 2 ^ (n - clz_from n x - 1) \<le> unat x)"
proof (induction n)
  case 0
  then show ?case by (simp add: unat_eq_0)
next
  case (Suc n)
  show ?case
  proof (cases "bit x n")
    case True
    then have "2 ^ n \<le> unat x" by (simp add: nat_bit_ge bit_unsigned_iff)
    with True Suc.prems show ?thesis by simp
  next
    case False
    then have "unat x < 2 ^ n" using Suc.prems by (simp add: nat_bit_lt bit_unsigned_iff)
    from Suc.IH [OF this] False show ?thesis by (auto simp: Suc_diff_le)
  qed
qed

lemma clz_from_numeral:
  "clz_from (numeral k) x =
     (if bit x (pred_numeral k) then 0 else Suc (clz_from (pred_numeral k) x))"
  by (simp add: numeral_eq_Suc)

lemma unat_push_bit_1: "n < 32 \<Longrightarrow> unat (push_bit n (1::u32)) = 2 ^ n"
  by (subst unsigned_push_bit_eq) (simp add: take_bit_nat_eq_self)

lemma load32_store32: "load32 (store32 m a v) a = v"
proof (rule bit_word_eqI)
  fix n assume n: "n < LENGTH(32)"
  have d: "a + 1 \<noteq> a" "a + 2 \<noteq> a" "a + 3 \<noteq> a"
    "a + 2 \<noteq> a + 1" "a + 3 \<noteq> a + 1" "a + 3 \<noteq> a + 2"
    by simp_all
  consider "n < 8" | "8 \<le> n" "n < 16" | "16 \<le> n" "n < 24" | "24 \<le> n" "n < 32"
    using n by fastforce
  then show "bit (load32 (store32 m a v) a) n = bit v n"
  proof cases
    case 1 then show ?thesis by (simp add: load32_def store32_def bit_simps)
  next
    case 2 then show ?thesis by (auto simp: load32_def store32_def bit_simps)
  next
    case 3 then show ?thesis by (auto simp: load32_def store32_def bit_simps)
  next
    case 4 then show ?thesis by (auto simp: load32_def store32_def bit_simps)
  qed
qed

lemma store32_other: "4 \<le> x - a \<Longrightarrow> store32 m a v x = m x"
  by (auto simp: store32_def word_le_nat_alt)

lemma load32_cong:
  assumes "\<And>i. i < 4 \<Longrightarrow> m (a + i) = m' (a + i)"
  shows "load32 m a = load32 m' a"
proof -
  have "m a = m' a" "m (a + 1) = m' (a + 1)" "m (a + 2) = m' (a + 2)" "m (a + 3) = m' (a + 3)"
    using assms [of 0] assms [of 1] assms [of 2] assms [of 3]
    by (simp_all add: word_less_nat_alt)
  then show ?thesis by (simp add: load32_def)
qed

lemma store32_far:
  "4 \<le> b - a \<Longrightarrow> 4 \<le> a - b \<Longrightarrow> i < 4 \<Longrightarrow> store32 m b v (a + i) = m (a + i)"
  by (rule store32_other) unat_arith

lemma load32_store32_disjoint:
  "4 \<le> b - a \<Longrightarrow> 4 \<le> a - b \<Longrightarrow> load32 (store32 m b v) a = load32 m a"
  by (rule load32_cong) (simp add: store32_far)

section \<open>Facts about the header and the size classes\<close>

lemmas header_offsets =
  offsetof_HEADER_classId_def offsetof_HEADER_payloadSize_def
  offsetof_HEADER_reserved1_def offsetof_HEADER_reserved2_def

lemmas header_fields =
  get_classId_def get_payloadSize_def get_reserved1_def get_reserved2_def
  set_classId_def set_payloadSize_def set_reserved1_def set_reserved2_def
  load_u32_def store_u32_def

lemmas arena_eval =
  arena_env_def arena_start_def arena_mem_allocate_def arena_mem_free_def
  memory_allocate_def memory_free_def memory_copy_def memory_fill_def record_event_def
  adjust_def HEADER_SIZE_def MAX_BYTELENGTH_def MAX_SIZE_32_def AL_MASK_def
  offsetof_HEADER_def offsetof_HEADER_reserved1_def
  clz_def clz_from_numeral shl_def select_def

lemma unat_HEADER_SIZE: "unat (HEADER_SIZE env) = (if def_ref_collect env then 16 else 8)"
  by (simp add: HEADER_SIZE_def AL_MASK_def offsetof_HEADER_def offsetof_HEADER_reserved1_def)

lemma unat_MAX_BYTELENGTH:
  "unat (MAX_BYTELENGTH env) = 2 ^ 30 - unat (HEADER_SIZE env)"
  by (simp add: MAX_BYTELENGTH_def MAX_SIZE_32_def HEADER_SIZE_def AL_MASK_def
      offsetof_HEADER_def offsetof_HEADER_reserved1_def)

text \<open>
  The export test compiles \<open>allocate\<close> for a payload of 4 bytes without a collector
  into a request of 16 bytes.
\<close>

lemma adjust_as_compiled: "adjust (arena_env False False) 4 = 16"
  by (simp add: arena_eval)

lemma adjust_unat:
  assumes "unat payloadSize + unat (HEADER_SIZE env) \<le> 2 ^ 30"
  shows "\<exists>k. 3 \<le> k \<and> k \<le> 30 \<and> unat (adjust env payloadSize) = 2 ^ k \<and>
             unat payloadSize + unat (HEADER_SIZE env) \<le> 2 ^ k \<and>
             2 ^ k < 2 * (unat payloadSize + unat (HEADER_SIZE env))"
proof -
  define h where "h = unat (HEADER_SIZE env)"
  define w where "w = payloadSize + HEADER_SIZE env - 1"
  define c where "c = clz_from 32 w"
  have h: "h = 8 \<or> h = 16" by (simp add: h_def unat_HEADER_SIZE)
  have le: "unat payloadSize + h \<le> 2 ^ 30" using assms by (simp add: h_def)
  have sum: "unat (payloadSize + HEADER_SIZE env) = unat payloadSize + h"
    using le unfolding h_def by (subst unat_add_lem [THEN iffD1]) simp_all
  have w: "unat w = unat payloadSize + h - 1"
    unfolding w_def using sum h by (subst unat_sub) (auto simp: word_le_nat_alt)
  have w7: "7 \<le> unat w" and w30: "unat w < 2 ^ 30" using w h le by auto
  have "w \<noteq> 0" using w7 by auto
  moreover have "unat w < 2 ^ 32" using w30 by simp
  ultimately have c: "c < 32" "unat w < 2 ^ (32 - c)" "2 ^ (32 - c - 1) \<le> unat w"
    using clz_from_bounds [of w 32] by (simp_all add: c_def)
  have "(2::nat) ^ (32 - c - 1) < 2 ^ 30" using c(3) w30 by (rule le_less_trans)
  then have "32 - c - 1 < 30" by (rule power_less_imp_less_exp [rotated]) simp
  then have c2: "2 \<le> c" by simp
  have "(2::nat) ^ 2 < 2 ^ (32 - c)" using c(2) w7 by simp
  then have "2 < 32 - c" by (rule power_less_imp_less_exp [rotated]) simp
  then have c29: "c \<le> 29" by simp
  have "unat (32 - clz w) = 32 - c"
    using c(1) by (simp add: clz_def c_def [symmetric] unat_sub word_le_nat_alt unat_of_nat)
  then have "adjust env payloadSize = push_bit (32 - c) 1"
    using c2 by (simp add: adjust_def shl_def w_def [symmetric])
  then have a: "unat (adjust env payloadSize) = 2 ^ (32 - c)"
    using c(1) c2 by (simp only: unat_push_bit_1)
  have "(2::nat) ^ (32 - c) = 2 * 2 ^ (32 - c - 1)"
    using c(1) by (simp flip: power_Suc)
  then have "(2::nat) ^ (32 - c) < 2 * (unat payloadSize + h)" using c(3) w w7 by simp
  moreover have "unat payloadSize + h \<le> 2 ^ (32 - c)" using c(2) w by simp
  moreover have "3 \<le> 32 - c" "32 - c \<le> 30" using c2 c29 by simp_all
  ultimately show ?thesis using a unfolding h_def by (intro exI [of _ "32 - c"]) simp
qed

section \<open>Size classing\<close>

text \<open>
  Claim C3. For every payload size from 0 to \<open>MAX_BYTELENGTH\<close>, \<open>adjust\<close> returns a power
  of two that is at least the payload size plus the header size and strictly less than
  twice that sum.
\<close>

theorem C3_adjust_size_class:
  assumes "payloadSize \<le> MAX_BYTELENGTH env"
  shows "(\<exists>k. unat (adjust env payloadSize) = 2 ^ k) \<and>
         unat payloadSize + unat (HEADER_SIZE env) \<le> unat (adjust env payloadSize) \<and>
         unat (adjust env payloadSize) < 2 * (unat payloadSize + unat (HEADER_SIZE env))"
proof -
  have "unat payloadSize \<le> 2 ^ 30 - unat (HEADER_SIZE env)"
    using assms by (simp add: word_le_nat_alt unat_MAX_BYTELENGTH)
  then have "unat payloadSize + unat (HEADER_SIZE env) \<le> 2 ^ 30"
    by (simp add: unat_HEADER_SIZE split: if_splits)
  from adjust_unat [OF this] show ?thesis by auto
qed

theorem C3_adjust_size_class_witness:
  "9 \<le> MAX_BYTELENGTH (arena_env True False) \<and>
   (\<exists>k. unat (adjust (arena_env True False) 9) = 2 ^ k) \<and>
   unat (9 :: usize) + unat (HEADER_SIZE (arena_env True False))
     \<le> unat (adjust (arena_env True False) 9) \<and>
   unat (adjust (arena_env True False) 9)
     < 2 * (unat (9 :: usize) + unat (HEADER_SIZE (arena_env True False)))"
proof -
  have h: "9 \<le> MAX_BYTELENGTH (arena_env True False)"
    by (simp add: arena_eval)
  from C3_adjust_size_class [OF h] h show ?thesis by simp
qed

section \<open>Allocation\<close>

text \<open>
  Claim C5. For every \<open>n\<close>, right after \<open>ref = allocate(n)\<close> the header in front of
  \<open>ref\<close> has \<open>classId = HEADER_MAGIC\<close> and \<open>payloadSize = n\<close>, and, when a collector is
  compiled in, both reserved fields are zero.
\<close>

theorem C5_allocate_header:
  assumes "allocate env n s = Inr (ref, s')"
  shows "get_classId s' (ref - HEADER_SIZE env) = HEADER_MAGIC \<and>
         get_payloadSize s' (ref - HEADER_SIZE env) = n \<and>
         (def_ref_collect env \<longrightarrow>
            get_reserved1 s' (ref - HEADER_SIZE env) = 0 \<and>
            get_reserved2 s' (ref - HEADER_SIZE env) = 0)"
proof -
  from assms obtain header s1 where
    a: "memory_allocate env (adjust env n) s = Inr (header, s1)" and
    r: "ref = header + HEADER_SIZE env" and
    s': "s' = (if def_ref_collect env
               then set_reserved2 header 0 (set_reserved1 header 0
                      (set_payloadSize header n (set_classId header HEADER_MAGIC s1)))
               else set_payloadSize header n (set_classId header HEADER_MAGIC s1))"
    by (auto simp: allocate_def Let_def split: sum.splits)
  have h: "ref - HEADER_SIZE env = header" using r by simp
  show ?thesis
    unfolding h s'
    by (simp add: header_fields header_offsets load32_store32 load32_store32_disjoint)
qed

theorem C5_allocate_header_witness:
  "\<exists>s'. allocate (arena_env True False) 5 (arena_start 255) = Inr (64, s') \<and>
     get_classId s' 48 = HEADER_MAGIC \<and> get_payloadSize s' 48 = 5 \<and>
     get_reserved1 s' 48 = 0 \<and> get_reserved2 s' 48 = 0"
proof -
  obtain s' where a: "allocate (arena_env True False) 5 (arena_start 255) = Inr (64, s')"
    by (simp add: allocate_def arena_eval)
  have "HEADER_SIZE (arena_env True False) = 16" "def_ref_collect (arena_env True False)"
    by (simp_all add: arena_eval)
  with C5_allocate_header [OF a] a show ?thesis by simp
qed

section \<open>Shrinking in place\<close>

text \<open>
  Claim C10. When the new size is at most the payload size in the header, \<open>reallocate\<close>
  returns the same reference, calls none of allocate, free, copy and fill of the backing
  allocator, and changes nothing but the four bytes of the header's \<open>payloadSize\<close>,
  whatever the size classes are and wherever the reference points.
\<close>

theorem C10_reallocate_shrink:
  assumes "newPayloadSize \<le> get_payloadSize s (ref - HEADER_SIZE env)"
  shows "\<exists>s'. reallocate env ref newPayloadSize s = Inr (ref, s') \<and>
           trace s' = trace s \<and> heap s' = heap s \<and>
           get_payloadSize s' (ref - HEADER_SIZE env) = newPayloadSize \<and>
           (\<forall>a. 4 \<le> a - (ref - HEADER_SIZE env + offsetof_HEADER_payloadSize)
                 \<longrightarrow> mem s' a = mem s a)"
proof -
  have "reallocate env ref newPayloadSize s =
          Inr (ref, set_payloadSize (ref - HEADER_SIZE env) newPayloadSize s)"
    using assms by (simp add: reallocate_def Let_def not_less [symmetric])
  then show ?thesis
    by (simp add: header_fields load32_store32 store32_other)
qed

theorem C10_reallocate_shrink_witness:
  "\<exists>s s'. allocate (arena_env True False) 100 (arena_start 255) = Inr (64, s) \<and>
     3 \<le> get_payloadSize s (64 - HEADER_SIZE (arena_env True False)) \<and>
     reallocate (arena_env True False) 64 3 s = Inr (64, s') \<and>
     trace s' = trace s \<and> heap s' = heap s \<and> get_payloadSize s' 48 = 3 \<and>
     mem s' 64 = mem s 64 \<and> get_classId s' 48 = get_classId s 48"
proof -
  obtain s where a: "allocate (arena_env True False) 100 (arena_start 255) = Inr (64, s)"
    by (simp add: allocate_def arena_eval)
  have hs: "HEADER_SIZE (arena_env True False) = 16"
    by (simp add: arena_eval)
  have p: "get_payloadSize s 48 = 100"
    using a by (auto simp: allocate_def arena_eval header_fields header_offsets
        load32_store32 load32_store32_disjoint)
  then have h: "3 \<le> get_payloadSize s (64 - HEADER_SIZE (arena_env True False))"
    by (simp add: hs)
  from C10_reallocate_shrink [OF h] obtain s' where
    r: "reallocate (arena_env True False) 64 3 s = Inr (64, s')" and
    t: "trace s' = trace s" "heap s' = heap s" "get_payloadSize s' 48 = 3" and
    m: "\<forall>a. 4 \<le> a - (48 + offsetof_HEADER_payloadSize) \<longrightarrow> mem s' a = mem s a"
    by (auto simp: hs)
  have "mem s' 64 = mem s 64" "mem s' 48 = mem s 48" "mem s' 49 = mem s 49"
    "mem s' 50 = mem s 50" "mem s' 51 = mem s 51"
    using m by (simp_all add: header_offsets)
  then have "mem s' 64 = mem s 64" "get_classId s' 48 = get_classId s 48"
    by (simp_all add: header_fields header_offsets load32_def)
  with a h r t show ?thesis by blast
qed

section \<open>Registration\<close>

text \<open>
  Claim C6. \<open>register\<close> is not idempotent. In a checked build, \<open>register\<close> on a
  reference whose header does not carry \<open>HEADER_MAGIC\<close> fails an assertion; a successful
  \<open>register\<close> returns the reference and overwrites \<open>classId\<close> with the given id by a
  single store, in a checked build only from \<open>HEADER_MAGIC\<close>, after which (the id not
  being the magic value itself) every further \<open>register\<close> on that reference fails.
\<close>

theorem C6_register_once:
  "(\<not> ASC_NO_ASSERT env \<and> get_classId s (ref - HEADER_SIZE env) \<noteq> HEADER_MAGIC \<longrightarrow>
      register env ref classId s = Inl Assertion_failed) \<and>
   (register env ref classId s = Inr (r, s') \<longrightarrow>
      r = ref \<and> get_classId s' (ref - HEADER_SIZE env) = classId \<and>
      mem s' = store32 (mem s) (ref - HEADER_SIZE env + offsetof_HEADER_classId) classId \<and>
      (\<not> ASC_NO_ASSERT env \<longrightarrow>
         get_classId s (ref - HEADER_SIZE env) = HEADER_MAGIC \<and>
         (classId \<noteq> HEADER_MAGIC \<longrightarrow> register env ref classId' s' = Inl Assertion_failed)))"
proof (intro conjI impI)
  assume "\<not> ASC_NO_ASSERT env \<and> get_classId s (ref - HEADER_SIZE env) \<noteq> HEADER_MAGIC"
  then show "register env ref classId s = Inl Assertion_failed"
    by (simp add: register_def)
next
  assume a: "register env ref classId s = Inr (r, s')"
  then show "r = ref"
    by (auto simp: register_def Let_def split: if_splits sum.splits)
  from a have m: "mem s' = store32 (mem s) (ref - HEADER_SIZE env + offsetof_HEADER_classId) classId"
    by (auto simp: register_def Let_def header_fields record_event_def split: if_splits)
  then show "mem s' = store32 (mem s) (ref - HEADER_SIZE env + offsetof_HEADER_classId) classId" .
  from m show c: "get_classId s' (ref - HEADER_SIZE env) = classId"
    by (simp add: header_fields load32_store32)
  {
    assume n: "\<not> ASC_NO_ASSERT env"
    with a show "get_classId s (ref - HEADER_SIZE env) = HEADER_MAGIC"
      by (auto simp: register_def Let_def split: if_splits)
    assume "classId \<noteq> HEADER_MAGIC"
    with n c show "register env ref classId' s' = Inl Assertion_failed"
      by (simp add: register_def)
  }
qed

theorem C6_register_once_witness:
  "\<exists>s1 s2. allocate (arena_env True False) 4 (arena_start 0) = Inr (64, s1) \<and>
     register (arena_env True False) 64 7 s1 = Inr (64, s2) \<and>
     \<not> ASC_NO_ASSERT (arena_env True False) \<and> get_classId s2 48 \<noteq> HEADER_MAGIC \<and>
     get_classId s2 48 = 7 \<and>
     register (arena_env True False) 64 7 s2 = Inl Assertion_failed"
proof -
  obtain s1 where a: "allocate (arena_env True False) 4 (arena_start 0) = Inr (64, s1)"
    by (simp add: allocate_def arena_eval)
  have hs: "HEADER_SIZE (arena_env True False) = 16"
    and na: "\<not> ASC_NO_ASSERT (arena_env True False)"
    and hb: "HEAP_BASE (arena_env True False) < 64"
    by (simp_all add: arena_eval)
  have "get_classId s1 48 = HEADER_MAGIC"
    using a by (auto simp: allocate_def arena_eval header_fields header_offsets
        load32_store32 load32_store32_disjoint)
  then obtain s2 where r: "register (arena_env True False) 64 7 s1 = Inr (64, s2)"
    by (simp add: register_def Let_def hs na hb)
  from C6_register_once [of "arena_env True False" s1 64 7 64 s2 7] r na
  have c: "get_classId s2 48 = 7" "register (arena_env True False) 64 7 s2 = Inl Assertion_failed"
    by (simp_all add: hs HEADER_MAGIC_def)
  then have "get_classId s2 48 \<noteq> HEADER_MAGIC" by (simp add: HEADER_MAGIC_def)
  with a r na c show ?thesis by blast
qed

section \<open>Discarding\<close>

text \<open>
  Claim C7 says that \<open>discard\<close> frees the block whenever the header carries
  \<open>HEADER_MAGIC\<close>. A checked build first asserts that the reference lies above
  \<open>HEAP_BASE\<close>: below it the call aborts, with nothing freed, although the header
  carries the magic value.
\<close>

theorem C7_discard_static_counterexample:
  "get_classId (store_u32 0 HEADER_MAGIC (arena_start 0)) (8 - HEADER_SIZE (arena_env False False))
     = HEADER_MAGIC \<and>
   discard (arena_env False False) 8 (store_u32 0 HEADER_MAGIC (arena_start 0))
     = Inl (Assertion_failed, store_u32 0 HEADER_MAGIC (arena_start 0))"
  by (simp add: discard_def arena_eval header_fields header_offsets load32_store32)

text \<open>
  Claim C7, amended. \<open>discard\<close> requires the header to carry \<open>HEADER_MAGIC\<close> and, in a
  checked build, the reference to lie above \<open>HEAP_BASE\<close>: when that holds it frees the
  block at the header address through the backing allocator, by exactly one call. In a
  checked build, \<open>discard\<close> on a registered object fails an assertion before any free
  occurs: at the abort no call has been recorded and the allocator is in the state it
  was in.
\<close>

theorem C7_discard:
  "(get_classId s (ref - HEADER_SIZE env) = HEADER_MAGIC \<and>
      (ASC_NO_ASSERT env \<or> HEAP_BASE env < ref) \<longrightarrow>
      (\<exists>s'. discard env ref s = Inr s' \<and>
            trace s' = trace s @ [Mem_free (ref - HEADER_SIZE env)] \<and>
            heap s' = mem_free env (heap s) (ref - HEADER_SIZE env))) \<and>
   (\<not> ASC_NO_ASSERT env \<and> get_classId s (ref - HEADER_SIZE env) \<noteq> HEADER_MAGIC \<longrightarrow>
      (\<exists>s'. discard env ref s = Inl (Assertion_failed, s') \<and>
            trace s' = trace s \<and> heap s' = heap s))"
  by (auto simp: discard_def Let_def memory_free_def record_event_def not_less)

theorem C7_discard_witness:
  "\<exists>s1 s2 s3. allocate (arena_env False False) 4 (arena_start 0) = Inr (56, s1) \<and>
     HEAP_BASE (arena_env False False) < 56 \<and> get_classId s1 48 = HEADER_MAGIC \<and>
     discard (arena_env False False) 56 s1 = Inr s2 \<and>
     trace s2 = [Mem_allocate 16 48, Mem_free 48] \<and>
     \<not> ASC_NO_ASSERT (arena_env False False) \<and>
     get_classId (set_classId 48 7 s1) 48 \<noteq> HEADER_MAGIC \<and>
     discard (arena_env False False) 56 (set_classId 48 7 s1) = Inl (Assertion_failed, s3) \<and>
     trace s3 = [Mem_allocate 16 48] \<and> heap s3 = 64"
proof -
  obtain s1 where a: "allocate (arena_env False False) 4 (arena_start 0) = Inr (56, s1)"
    by (simp add: allocate_def arena_eval)
  have hs: "HEADER_SIZE (arena_env False False) = 8"
    and na: "\<not> ASC_NO_ASSERT (arena_env False False)"
    and hb: "HEAP_BASE (arena_env False False) < 56"
    by (simp_all add: arena_eval)
  have c: "get_classId s1 48 = HEADER_MAGIC"
    and t: "trace s1 = [Mem_allocate 16 48]" and h: "heap s1 = 64"
    using a by (auto simp: allocate_def arena_eval header_fields header_offsets
        load32_store32 load32_store32_disjoint)
  have c': "get_classId (set_classId 48 7 s1) 48 \<noteq> HEADER_MAGIC"
    and t': "trace (set_classId 48 7 s1) = trace s1" "heap (set_classId 48 7 s1) = heap s1"
    by (simp_all add: header_fields load32_store32 HEADER_MAGIC_def)
  from C7_discard [of s1 56 "arena_env False False"] hb c
  obtain s2 where "discard (arena_env False False) 56 s1 = Inr s2"
    "trace s2 = trace s1 @ [Mem_free 48]"
    by (auto simp: hs)
  moreover from C7_discard [of "set_classId 48 7 s1" 56 "arena_env False False"] na c'
  obtain s3 where
    "discard (arena_env False False) 56 (set_classId 48 7 s1) = Inl (Assertion_failed, s3)"
    "trace s3 = trace (set_classId 48 7 s1)" "heap s3 = heap (set_classId 48 7 s1)"
    by (auto simp: hs)
  ultimately show ?thesis using a hb c na c' t h t' by auto
qed

section \<open>The hooks of the collector interface\<close>

text \<open>
  Claim C8. In a build without a collector, \<open>gc.register\<close>, \<open>gc.link\<close> and \<open>gc.mark\<close>
  fail with a diagnostic that names the missing hook, while \<open>gc.collect\<close> only warns and
  continues; in a build with a collector each of the four forwards to its hook.
\<close>

theorem C8_gc_hooks:
  "(\<not> def_gc_register env \<longrightarrow>
      gc_register env ref s = Inl (ERROR ''missing implementation: gc.register'')) \<and>
   (\<not> def_gc_link env \<longrightarrow>
      gc_link env ref parentRef s = Inl (ERROR ''missing implementation: gc.link'')) \<and>
   (\<not> def_gc_mark env \<longrightarrow>
      gc_mark env ref s = Inl (ERROR ''missing implementation: gc.mark'')) \<and>
   (\<not> def_gc_collect env \<longrightarrow>
      gc_collect env s = Inr (record_event (WARNING ''missing implementation: gc.collect'') s)) \<and>
   (def_gc_register env \<longrightarrow> gc_register env ref s = Inr (record_event (Gc_register ref) s)) \<and>
   (def_gc_link env \<longrightarrow>
      gc_link env ref parentRef s = Inr (record_event (Gc_link ref parentRef) s)) \<and>
   (def_gc_mark env \<longrightarrow> gc_mark env ref s = Inr (record_event (Gc_mark ref) s)) \<and>
   (def_gc_collect env \<longrightarrow> gc_collect env s = Inr (record_event Gc_collect s))"
  by (simp add: gc_register_def gc_link_def gc_mark_def gc_collect_def)

theorem C8_gc_hooks_witness:
  "gc_register (arena_env False False) 64 (arena_start 0)
     = Inl (ERROR ''missing implementation: gc.register'') \<and>
   gc_link (arena_env False False) 96 64 (arena_start 0)
     = Inl (ERROR ''missing implementation: gc.link'') \<and>
   gc_mark (arena_env False False) 64 (arena_start 0)
     = Inl (ERROR ''missing implementation: gc.mark'') \<and>
   (\<exists>s'. gc_collect (arena_env False False) (arena_start 0) = Inr s' \<and>
      trace s' = [WARNING ''missing implementation: gc.collect'']) \<and>
   (\<exists>s'. gc_register (arena_env True False) 64 (arena_start 0) = Inr s' \<and>
      trace s' = [Gc_register 64]) \<and>
   (\<exists>s'. gc_link (arena_env True False) 96 64 (arena_start 0) = Inr s' \<and>
      trace s' = [Gc_link 96 64]) \<and>
   (\<exists>s'. gc_mark (arena_env True False) 64 (arena_start 0) = Inr s' \<and>
      trace s' = [Gc_mark 64]) \<and>
   (\<exists>s'. gc_collect (arena_env True False) (arena_start 0) = Inr s' \<and>
      trace s' = [Gc_collect])"
  using C8_gc_hooks [of "arena_env False False" 64 "arena_start 0" 96]
    C8_gc_hooks [of "arena_env False False" 96 "arena_start 0" 64]
    C8_gc_hooks [of "arena_env True False" 64 "arena_start 0" 96]
    C8_gc_hooks [of "arena_env True False" 96 "arena_start 0" 64]
  by (simp add: arena_env_def arena_start_def record_event_def)

section \<open>Facts about addresses that do not wrap around\<close>

lemma unat_sub_ge:
  fixes a x :: usize
  assumes "unat a + n \<le> 2 ^ 32" and "unat x < unat a \<or> unat a + n \<le> unat x"
  shows "n \<le> unat (x - a)"
proof (cases "unat a \<le> unat x")
  case True
  then have "unat (x - a) = unat x - unat a" by (simp add: unat_sub word_le_nat_alt)
  with True assms show ?thesis by auto
next
  case False
  have "unat (x - a) = (if unat a \<le> unat x then unat x - unat a else unat x + 2 ^ 32 - unat a)"
    by (simp add: unat_sub_if_size word_size word_le_nat_alt)
  with False assms show ?thesis by auto
qed

lemma unat_plus: "unat (p :: usize) + unat k < 2 ^ 32 \<Longrightarrow> unat (p + k) = unat p + unat k"
  by (rule unat_add_lem [THEN iffD1]) simp

lemma store32_miss:
  assumes "unat a + 4 \<le> 2 ^ 32" and "unat x < unat a \<or> unat a + 4 \<le> unat x"
  shows "store32 m a v x = m x"
proof -
  have "4 \<le> unat (x - a)" using assms by (rule unat_sub_ge)
  then show ?thesis by (intro store32_other) (simp add: word_le_nat_alt)
qed

lemma load32_miss:
  assumes "unat a + 4 \<le> 2 ^ 32" "unat b + 4 \<le> 2 ^ 32"
    and "unat b + 4 \<le> unat a \<or> unat a + 4 \<le> unat b"
  shows "load32 (store32 m a v) b = load32 m b"
proof (rule load32_cong)
  fix i :: usize assume "i < 4"
  then have i: "unat i < 4" by (simp add: word_less_nat_alt)
  then have "unat (b + i) = unat b + unat i" using assms(2) by (intro unat_plus) simp
  then show "store32 m a v (b + i) = m (b + i)"
    using assms i by (intro store32_miss) auto
qed

section \<open>What allocate, register and makeArray return\<close>

lemma allocate_Inr:
  assumes "allocate env n s = Inr (r, s')"
  shows "\<exists>p h. mem_allocate env (heap s) (adjust env n) = Some (p, h) \<and>
           r = p + HEADER_SIZE env \<and> heap s' = h \<and>
           trace s' = trace s @ [Mem_allocate (adjust env n) p] \<and>
           mem s' =
             (if def_ref_collect env
              then store32 (store32 (store32 (store32 (mem s) p HEADER_MAGIC) (p + 4) n)
                     (p + 8) 0) (p + 12) 0
              else store32 (store32 (mem s) p HEADER_MAGIC) (p + 4) n)"
proof -
  from assms obtain p h where a: "mem_allocate env (heap s) (adjust env n) = Some (p, h)"
    by (auto simp: allocate_def memory_allocate_def split: option.splits)
  with assms show ?thesis
    by (intro exI [of _ p] exI [of _ h])
      (auto simp: allocate_def memory_allocate_def record_event_def Let_def header_fields
        header_offsets)
qed

lemma allocate_Some:
  assumes "mem_allocate env (heap s) (adjust env n) = Some (p, h)"
  shows "\<exists>s'. allocate env n s = Inr (p + HEADER_SIZE env, s')"
  using assms by (simp add: allocate_def memory_allocate_def Let_def)

lemma register_Inr:
  assumes "register env r c s = Inr (r', s')"
  shows "r' = r \<and> heap s' = heap s \<and>
         trace s' = trace s @ (if def_ref_register env then [Ref_register r] else []) \<and>
         mem s' = store32 (mem s) (r - HEADER_SIZE env) c"
  using assms
  by (auto simp: register_def record_event_def Let_def header_fields header_offsets
      split: if_splits)

lemma register_ok:
  assumes "HEAP_BASE env < r" "get_classId s (r - HEADER_SIZE env) = HEADER_MAGIC"
  shows "\<exists>s'. register env r c s = Inr (r, s')"
  using assms by (simp add: register_def Let_def)

lemma makeArray_Inr:
  assumes "makeArray env capacity cid alignLog2 source s = Inr (array, s')"
  shows "\<exists>s1 s2 buffer s3 s4.
           allocate env (offsetof_Array env) s = Inr (array, s1) \<and>
           register env array cid s1 = Inr (array, s2) \<and>
           allocate env (shl capacity alignLog2) s2 = Inr (buffer, s3) \<and>
           register env buffer (classId_ArrayBuffer env) s3 = Inr (buffer, s4) \<and>
           trace s' = trace s4 @ (if def_ref_link env then [Ref_link buffer array] else [])
                        @ (if source \<noteq> 0 then [Mem_copy buffer source (shl capacity alignLog2)] else []) \<and>
           heap s' = heap s4 \<and>
           mem s' =
             (let m = store32 (store32 (store32 (store32 (mem s4)
                        (array + offsetof_data env) buffer)
                        (array + offsetof_dataStart env) buffer)
                        (array + offsetof_dataLength env) (shl capacity alignLog2))
                        (array + offsetof_length env) capacity
              in if source \<noteq> 0 then copy_bytes m buffer source (shl capacity alignLog2) else m)"
proof -
  from assms obtain r1 s1 where 1: "allocate env (offsetof_Array env) s = Inr (r1, s1)"
    by (auto simp: makeArray_def split: sum.splits)
  with assms obtain a2 s2 where 2: "register env r1 cid s1 = Inr (a2, s2)"
    by (auto simp: makeArray_def split: sum.splits)
  with 1 assms obtain r2 s3 where 3: "allocate env (shl capacity alignLog2) s2 = Inr (r2, s3)"
    by (auto simp: makeArray_def Let_def split: sum.splits)
  with 1 2 assms obtain b s4 where 4: "register env r2 (classId_ArrayBuffer env) s3 = Inr (b, s4)"
    by (auto simp: makeArray_def Let_def split: sum.splits)
  have e: "a2 = r1" "b = r2" using 2 4 by (simp_all add: register_Inr)
  from assms 1 2 3 4 have a: "array = a2"
    by (simp add: makeArray_def Let_def)
  from assms 1 2 3 4 have "s' =
     (let s5 = ref_link env b a2 (store_u32 (a2 + offsetof_data env) b s4);
          s6 = store_u32 (a2 + offsetof_dataStart env) b s5;
          s7 = store_u32 (a2 + offsetof_dataLength env) (shl capacity alignLog2) s6;
          s8 = store_u32 (a2 + offsetof_length env) capacity s7
      in if source \<noteq> 0 then memory_copy b source (shl capacity alignLog2) s8 else s8)"
    by (auto simp: makeArray_def Let_def)
  then have "trace s' = trace s4 @ (if def_ref_link env then [Ref_link b a2] else [])
                        @ (if source \<noteq> 0 then [Mem_copy b source (shl capacity alignLog2)] else [])"
    "heap s' = heap s4"
    "mem s' =
             (let m = store32 (store32 (store32 (store32 (mem s4)
                        (a2 + offsetof_data env) b)
                        (a2 + offsetof_dataStart env) b)
                        (a2 + offsetof_dataLength env) (shl capacity alignLog2))
                        (a2 + offsetof_length env) capacity
              in if source \<noteq> 0 then copy_bytes m b source (shl capacity alignLog2) else m)"
    by (simp_all add: Let_def ref_link_def store_u32_def memory_copy_def record_event_def)
  with 1 2 3 4 e a show ?thesis by blast
qed

lemma allocate_fresh_header:
  assumes "allocate env n s = Inr (p + HEADER_SIZE env, s')"
  shows "get_classId s' p = HEADER_MAGIC" and "get_payloadSize s' p = n"
proof -
  from allocate_Inr [OF assms] have
    "mem s' =
       (if def_ref_collect env
        then store32 (store32 (store32 (store32 (mem s) p HEADER_MAGIC) (p + 4) n) (p + 8) 0) (p + 12) 0
        else store32 (store32 (mem s) p HEADER_MAGIC) (p + 4) n)"
    by auto
  then show "get_classId s' p = HEADER_MAGIC" and "get_payloadSize s' p = n"
    by (simp_all add: header_fields header_offsets load32_store32 load32_store32_disjoint)
qed

lemma allocate_frame:
  assumes a: "allocate env n s = Inr (p + HEADER_SIZE env, s')"
    and w: "unat p + unat (HEADER_SIZE env) \<le> 2 ^ 32"
    and x: "unat x < unat p \<or> unat p + unat (HEADER_SIZE env) \<le> unat x"
  shows "mem s' x = mem s x"
proof (cases "def_ref_collect env")
  case True
  then have h: "unat (HEADER_SIZE env) = 16" by (simp add: unat_HEADER_SIZE)
  have u: "unat (p + 4) = unat p + 4" "unat (p + 8) = unat p + 8" "unat (p + 12) = unat p + 12"
    using w h by (simp_all add: unat_plus)
  from allocate_Inr [OF a] True have
    "mem s' = store32 (store32 (store32 (store32 (mem s) p HEADER_MAGIC) (p + 4) n) (p + 8) 0) (p + 12) 0"
    by auto
  then show ?thesis using w x h u by (elim disjE) (simp_all add: store32_miss)
next
  case False
  then have h: "unat (HEADER_SIZE env) = 8" by (simp add: unat_HEADER_SIZE)
  have u: "unat (p + 4) = unat p + 4"
    using w h by (simp_all add: unat_plus)
  from allocate_Inr [OF a] False have
    "mem s' = store32 (store32 (mem s) p HEADER_MAGIC) (p + 4) n"
    by auto
  then show ?thesis using w x h u by (elim disjE) (simp_all add: store32_miss)
qed

lemma adjust_covers:
  assumes "n \<le> MAX_BYTELENGTH env"
  shows "unat n + unat (HEADER_SIZE env) \<le> unat (adjust env n)"
proof -
  have "unat n \<le> 2 ^ 30 - unat (HEADER_SIZE env)"
    using assms by (simp add: word_le_nat_alt unat_MAX_BYTELENGTH)
  then have "unat n + unat (HEADER_SIZE env) \<le> 2 ^ 30"
    by (simp add: unat_HEADER_SIZE split: if_splits)
  from adjust_unat [OF this] show ?thesis by auto
qed

lemma arena_makeArray:
  "\<exists>m. makeArray (arena_env True False) 4 7 2 0 (arena_start b) =
   Inr (64, \<lparr>mem = m, heap = 112,
             trace = [Mem_allocate 32 48, Ref_register 64, Mem_allocate 32 80, Ref_register 96,
                      Ref_link 96 64]\<rparr>)"
  by (simp add: makeArray_def allocate_def register_def arena_eval header_fields header_offsets
      ref_link_def load32_store32 load32_store32_disjoint Let_def HEADER_MAGIC_def)

section \<open>Building an array\<close>

text \<open>
  Claim C2 says that \<open>makeArray\<close> allocates both the array and the buffer before it
  registers either. The code registers the array in the same expression that allocates
  it, before the buffer is allocated: in the calls recorded for a concrete run, the
  register call for the array comes second and the allocation of the buffer third.
\<close>

theorem C2_makeArray_order_counterexample:
  "trace (snd (projr (makeArray (arena_env True False) 4 7 2 0 (arena_start 0)))) =
     [Mem_allocate 32 48, Ref_register 64, Mem_allocate 32 80, Ref_register 96, Ref_link 96 64]"
  using arena_makeArray [of 0] by auto

text \<open>
  Claim C2, amended. For every call of \<open>makeArray\<close> that returns, in a build with a
  collector, the calls recorded are, in this order: the allocation of the array, exactly
  one register call for the array, the allocation of the buffer, exactly one register
  call for the buffer, exactly one \<open>link(buffer, array)\<close> call, and the copy from the source
  if one is given. Each object is allocated before it is registered and both are
  registered before the link.
\<close>

theorem C2_makeArray_calls:
  assumes "makeArray env capacity cid alignLog2 source s = Inr (array, s')"
    and "def_ref_register env" and "def_ref_link env"
  shows "\<exists>p1 p2. array = p1 + HEADER_SIZE env \<and>
           trace s' = trace s @
             [Mem_allocate (adjust env (offsetof_Array env)) p1,
              Ref_register array,
              Mem_allocate (adjust env (shl capacity alignLog2)) p2,
              Ref_register (p2 + HEADER_SIZE env),
              Ref_link (p2 + HEADER_SIZE env) array] @
             (if source \<noteq> 0
              then [Mem_copy (p2 + HEADER_SIZE env) source (shl capacity alignLog2)] else [])"
proof -
  from makeArray_Inr [OF assms(1)] obtain s1 s2 buffer s3 s4 where
    1: "allocate env (offsetof_Array env) s = Inr (array, s1)" and
    2: "register env array cid s1 = Inr (array, s2)" and
    3: "allocate env (shl capacity alignLog2) s2 = Inr (buffer, s3)" and
    4: "register env buffer (classId_ArrayBuffer env) s3 = Inr (buffer, s4)" and
    t: "trace s' = trace s4 @ (if def_ref_link env then [Ref_link buffer array] else [])
          @ (if source \<noteq> 0 then [Mem_copy buffer source (shl capacity alignLog2)] else [])"
    by blast
  from allocate_Inr [OF 1] obtain p1 where
    p1: "array = p1 + HEADER_SIZE env"
      "trace s1 = trace s @ [Mem_allocate (adjust env (offsetof_Array env)) p1]"
    by blast
  from allocate_Inr [OF 3] obtain p2 where
    p2: "buffer = p2 + HEADER_SIZE env"
      "trace s3 = trace s2 @ [Mem_allocate (adjust env (shl capacity alignLog2)) p2]"
    by blast
  have "trace s2 = trace s1 @ [Ref_register array]" "trace s4 = trace s3 @ [Ref_register buffer]"
    using register_Inr [OF 2] register_Inr [OF 4] assms(2) by simp_all
  with t p1 p2 assms(3) show ?thesis by (intro exI [of _ p1] exI [of _ p2]) simp
qed

theorem C2_makeArray_calls_witness:
  "\<exists>s'. makeArray (arena_env True False) 4 7 2 0 (arena_start 0) = Inr (64, s') \<and>
     def_ref_register (arena_env True False) \<and> def_ref_link (arena_env True False) \<and>
     trace s' =
       [Mem_allocate 32 48, Ref_register 64, Mem_allocate 32 80, Ref_register 96, Ref_link 96 64]"
proof -
  obtain s' where m: "makeArray (arena_env True False) 4 7 2 0 (arena_start 0) = Inr (64, s')"
    using arena_makeArray [of 0] by auto
  have d: "def_ref_register (arena_env True False)" "def_ref_link (arena_env True False)"
    by (simp_all add: arena_env_def)
  from C2_makeArray_calls [OF m d] obtain p1 p2 where
    "64 = p1 + HEADER_SIZE (arena_env True False)"
    "trace s' = trace (arena_start 0) @
       [Mem_allocate (adjust (arena_env True False) (offsetof_Array (arena_env True False))) p1,
        Ref_register 64,
        Mem_allocate (adjust (arena_env True False) (shl 4 2)) p2,
        Ref_register (p2 + HEADER_SIZE (arena_env True False)),
        Ref_link (p2 + HEADER_SIZE (arena_env True False)) 64]"
    by auto
  moreover have "trace s' = [Mem_allocate 32 48, Ref_register 64, Mem_allocate 32 80, Ref_register 96, Ref_link 96 64]"
    using m arena_makeArray [of 0] by auto
  ultimately show ?thesis using m d by blast
qed

text \<open>
  Claim C9 says that \<open>makeArray(4, INT32_ARRAY, 2, null)\<close> yields a buffer whose 16 bytes
  read as zero. Neither \<open>allocate\<close> nor \<open>makeArray\<close> writes the payload of the buffer: on
  memory that holds \<open>0xFF\<close> the buffer, at 96 as the array's \<open>dataStart\<close> says, still
  holds \<open>0xFF\<close>.
\<close>

theorem C9_makeArray_dirty_counterexample:
  "fst (projr (makeArray (arena_env True False) 4 7 2 0 (arena_start 255))) = 64 \<and>
   load_u32 (snd (projr (makeArray (arena_env True False) 4 7 2 0 (arena_start 255))))
     (64 + offsetof_dataStart (arena_env True False)) = 96 \<and>
   mem (snd (projr (makeArray (arena_env True False) 4 7 2 0 (arena_start 255)))) 96 = 255"
  apply (simp add: makeArray_def allocate_def register_def arena_eval header_fields header_offsets
      ref_link_def load32_store32 load32_store32_disjoint Let_def HEADER_MAGIC_def)
  apply (simp add: store32_def)
  done

text \<open>
  Claim C9, amended. \<open>makeArray(4, INT32_ARRAY, 2, null)\<close> yields a buffer whose header
  has \<open>payloadSize = 16\<close> and an array whose length field is 4, and it leaves the 16
  bytes of the buffer as the backing allocator handed them out (zero exactly where
  they were zero before the call). The backing allocator is taken to answer the two
  requests with blocks above \<open>HEAP_BASE\<close> that do not overlap and do not wrap around the
  address space, and the four fields of the array to lie inside its payload.
\<close>

theorem C9_makeArray_scenario:
  assumes a1: "mem_allocate env (heap s) (adjust env (offsetof_Array env)) = Some (p1, h1)"
    and a2: "mem_allocate env h1 (adjust env 16) = Some (p2, h2)"
    and hb: "HEAP_BASE env < p1 + HEADER_SIZE env" "HEAP_BASE env < p2 + HEADER_SIZE env"
    and w1: "unat p1 + unat (adjust env (offsetof_Array env)) \<le> 2 ^ 32"
    and w2: "unat p2 + unat (adjust env 16) \<le> 2 ^ 32"
    and dj: "unat p1 + unat (adjust env (offsetof_Array env)) \<le> unat p2 \<or>
             unat p2 + unat (adjust env 16) \<le> unat p1"
    and oa: "offsetof_Array env \<le> MAX_BYTELENGTH env"
    and f: "unat (offsetof_data env) + 4 \<le> unat (offsetof_Array env)"
      "unat (offsetof_dataStart env) + 4 \<le> unat (offsetof_Array env)"
      "unat (offsetof_dataLength env) + 4 \<le> unat (offsetof_Array env)"
      "unat (offsetof_length env) + 4 \<le> unat (offsetof_Array env)"
  shows "\<exists>s'. makeArray env 4 cid 2 0 s = Inr (p1 + HEADER_SIZE env, s') \<and>
           get_payloadSize s' p2 = 16 \<and>
           load_u32 s' (p1 + HEADER_SIZE env + offsetof_length env) = 4 \<and>
           (\<forall>i<16. mem s' (p2 + HEADER_SIZE env + i) = mem s (p2 + HEADER_SIZE env + i))"
proof -
  define H where "H = unat (HEADER_SIZE env)"
  define A1 where "A1 = unat (adjust env (offsetof_Array env))"
  define A2 where "A2 = unat (adjust env 16)"
  define array where "array = p1 + HEADER_SIZE env"
  define buffer where "buffer = p2 + HEADER_SIZE env"
  note w1' = w1 [folded A1_def] and w2' = w2 [folded A2_def] and dj' = dj [folded A1_def A2_def]
  have H: "H = 8 \<or> H = 16" by (simp add: H_def unat_HEADER_SIZE)
  then have H8: "8 \<le> H" by auto
  have c1: "unat (offsetof_Array env) + H \<le> A1"
    unfolding H_def A1_def using oa by (rule adjust_covers)
  have "(16 :: usize) \<le> MAX_BYTELENGTH env"
    by (simp add: MAX_BYTELENGTH_def MAX_SIZE_32_def HEADER_SIZE_def AL_MASK_def
        offsetof_HEADER_def offsetof_HEADER_reserved1_def)
  then have "unat (16 :: usize) + H \<le> A2"
    unfolding H_def A2_def by (rule adjust_covers)
  then have c2: "16 + H \<le> A2" by simp
  \<comment> \<open>the four calls succeed\<close>
  from allocate_Some [OF a1] obtain s1 where
    1: "allocate env (offsetof_Array env) s = Inr (array, s1)"
    unfolding array_def by blast
  have hs1: "heap s1 = h1" using allocate_Inr [OF 1] a1 by auto
  have "get_classId s1 (array - HEADER_SIZE env) = HEADER_MAGIC"
    using allocate_fresh_header(1) [OF 1 [unfolded array_def]] by (simp add: array_def)
  from register_ok [OF hb(1) [folded array_def] this] obtain s2 where
    2: "register env array cid s1 = Inr (array, s2)" by blast
  have hs2: "heap s2 = h1" and m2: "mem s2 = store32 (mem s1) p1 cid"
    using register_Inr [OF 2] hs1 by (simp_all add: array_def)
  have sh: "shl 4 2 = 16" by (simp add: shl_def)
  from allocate_Some [of env s2 16 p2 h2] a2 hs2 obtain s3 where
    3: "allocate env 16 s2 = Inr (buffer, s3)"
    unfolding buffer_def by auto
  have "get_classId s3 (buffer - HEADER_SIZE env) = HEADER_MAGIC"
    using allocate_fresh_header(1) [OF 3 [unfolded buffer_def]] by (simp add: buffer_def)
  from register_ok [OF hb(2) [folded buffer_def] this] obtain s4 where
    4: "register env buffer (classId_ArrayBuffer env) s3 = Inr (buffer, s4)" by blast
  have m4: "mem s4 = store32 (mem s3) p2 (classId_ArrayBuffer env)"
    using register_Inr [OF 4] by (simp add: buffer_def)
  have p3: "load32 (mem s3) (p2 + 4) = 16"
    using allocate_fresh_header(2) [OF 3 [unfolded buffer_def]]
    by (simp add: header_fields header_offsets)
  obtain s' where 5: "makeArray env 4 cid 2 0 s = Inr (array, s')"
    using 1 2 3 4 by (simp add: makeArray_def Let_def sh)
  from makeArray_Inr [OF 5] 1 2 3 4 have m': "mem s' =
      store32 (store32 (store32 (store32 (mem s4)
        (array + offsetof_data env) buffer)
        (array + offsetof_dataStart env) buffer)
        (array + offsetof_dataLength env) 16)
        (array + offsetof_length env) 4"
    by (auto simp: sh Let_def)
  \<comment> \<open>addresses without wrap-around\<close>
  have ua: "unat array = unat p1 + H"
    unfolding array_def H_def using w1' c1 f(1) H by (intro unat_plus) (simp add: H_def)
  have uf: "unat (array + offsetof_data env) = unat p1 + H + unat (offsetof_data env)"
    "unat (array + offsetof_dataStart env) = unat p1 + H + unat (offsetof_dataStart env)"
    "unat (array + offsetof_dataLength env) = unat p1 + H + unat (offsetof_dataLength env)"
    "unat (array + offsetof_length env) = unat p1 + H + unat (offsetof_length env)"
    using w1' c1 f ua by (simp_all add: unat_plus)
  have ub: "unat buffer = unat p2 + H"
    unfolding buffer_def H_def using w2' c2 H by (intro unat_plus) (simp add: H_def)
  have u4: "unat (p2 + 4) = unat p2 + 4"
    using w2' c2 H by (simp add: unat_plus)
  \<comment> \<open>the payload size of the buffer\<close>
  have "load32 (mem s') (p2 + 4) = load32 (mem s4) (p2 + 4)"
    unfolding m' using dj' w1' w2' c1 c2 f H uf u4
    by (elim disjE) (simp_all add: load32_miss)
  also have "\<dots> = 16"
    unfolding m4 using w2' c2 H u4 p3 by (simp add: load32_miss)
  finally have r1: "get_payloadSize s' p2 = 16"
    by (simp add: header_fields header_offsets)
  \<comment> \<open>the length field\<close>
  have r2: "load_u32 s' (array + offsetof_length env) = 4"
    unfolding load_u32_def m' by (rule load32_store32)
  \<comment> \<open>the payload of the buffer\<close>
  have r3: "mem s' (buffer + i) = mem s (buffer + i)" if "i < 16" for i
  proof -
    have i: "unat i < 16" using that by (simp add: word_less_nat_alt)
    have ux: "unat (buffer + i) = unat p2 + H + unat i"
      using w2' c2 ub i by (simp add: unat_plus)
    have "mem s' (buffer + i) = mem s4 (buffer + i)"
      unfolding m' using dj' w1' w2' c1 c2 f H uf ux i
      by (elim disjE) (simp_all add: store32_miss)
    also have "\<dots> = mem s3 (buffer + i)"
      unfolding m4 using w2' c2 H8 ux by (simp add: store32_miss)
    also have "\<dots> = mem s2 (buffer + i)"
    proof (rule allocate_frame [OF 3 [unfolded buffer_def]])
      show "unat p2 + unat (HEADER_SIZE env) \<le> 2 ^ 32"
        using w2' c2 by (simp add: H_def)
      show "unat (buffer + i) < unat p2 \<or> unat p2 + unat (HEADER_SIZE env) \<le> unat (buffer + i)"
        using ux by (simp add: H_def)
    qed
    also have "\<dots> = mem s1 (buffer + i)"
      unfolding m2 using dj' w1' w2' c1 c2 H ux i
      by (elim disjE) (simp_all add: store32_miss)
    also have "\<dots> = mem s (buffer + i)"
    proof (rule allocate_frame [OF 1 [unfolded array_def]])
      show "unat p1 + unat (HEADER_SIZE env) \<le> 2 ^ 32"
        using w1' c1 by (simp add: H_def)
      show "unat (buffer + i) < unat p1 \<or> unat p1 + unat (HEADER_SIZE env) \<le> unat (buffer + i)"
        using dj' c1 c2 ux i by (auto simp: H_def)
    qed
    finally show ?thesis .
  qed
  from 5 r1 r2 r3 show ?thesis unfolding array_def buffer_def by blast
qed

theorem C9_makeArray_scenario_witness:
  "\<exists>s'. makeArray (arena_env True False) 4 7 2 0 (arena_start 0) = Inr (64, s') \<and>
     get_payloadSize s' 80 = 16 \<and> load_u32 s' 76 = 4 \<and>
     load_u32 s' 96 = 0 \<and> load_u32 s' 100 = 0 \<and> load_u32 s' 104 = 0 \<and> load_u32 s' 108 = 0"
proof -
  let ?E = "arena_env True False"
  have e: "HEADER_SIZE ?E = 16" "offsetof_Array ?E = 16" "adjust ?E 16 = 32"
    "offsetof_length ?E = 12" "heap (arena_start 0) = 48" "HEAP_BASE ?E = 48"
    "mem_allocate ?E = arena_mem_allocate"
    by (simp_all add: arena_eval)
  have "\<exists>s'. makeArray ?E 4 7 2 0 (arena_start 0) = Inr (48 + HEADER_SIZE ?E, s') \<and>
           get_payloadSize s' 80 = 16 \<and>
           load_u32 s' (48 + HEADER_SIZE ?E + offsetof_length ?E) = 4 \<and>
           (\<forall>i<16. mem s' (80 + HEADER_SIZE ?E + i) = mem (arena_start 0) (80 + HEADER_SIZE ?E + i))"
  proof (rule C9_makeArray_scenario [where ?h1.0 = 80 and ?h2.0 = 112])
    show "mem_allocate ?E (heap (arena_start 0)) (adjust ?E (offsetof_Array ?E)) = Some (48, 80)"
      by (simp add: e) (simp add: arena_mem_allocate_def select_def)
    show "mem_allocate ?E 80 (adjust ?E 16) = Some (80, 112)"
      by (simp add: e) (simp add: arena_mem_allocate_def select_def)
    show "offsetof_Array ?E \<le> MAX_BYTELENGTH ?E"
      by (simp add: arena_eval)
  qed (simp_all add: e, simp_all add: arena_env_def)
  then obtain s' where m: "makeArray ?E 4 7 2 0 (arena_start 0) = Inr (64, s')"
    and p: "get_payloadSize s' 80 = 16" "load_u32 s' 76 = 4"
    and z: "\<forall>i<16. mem s' (96 + i) = 0"
    by (auto simp: e arena_start_def)
  have "mem s' 96 = 0" "mem s' 97 = 0" "mem s' 98 = 0" "mem s' 99 = 0"
    "mem s' 100 = 0" "mem s' 101 = 0" "mem s' 102 = 0" "mem s' 103 = 0"
    "mem s' 104 = 0" "mem s' 105 = 0" "mem s' 106 = 0" "mem s' 107 = 0"
    "mem s' 108 = 0" "mem s' 109 = 0" "mem s' 110 = 0" "mem s' 111 = 0"
    using z [rule_format, of 0] z [rule_format, of 1] z [rule_format, of 2]
      z [rule_format, of 3] z [rule_format, of 4] z [rule_format, of 5]
      z [rule_format, of 6] z [rule_format, of 7] z [rule_format, of 8]
      z [rule_format, of 9] z [rule_format, of 10] z [rule_format, of 11]
      z [rule_format, of 12] z [rule_format, of 13] z [rule_format, of 14]
      z [rule_format, of 15]
    by simp_all
  then have "load_u32 s' 96 = 0" "load_u32 s' 100 = 0" "load_u32 s' 104 = 0" "load_u32 s' 108 = 0"
    by (simp_all add: load_u32_def load32_def)
  with m p show ?thesis by simp
qed

section \<open>Growing an allocation\<close>

lemma fill_bytes_at:
  assumes "unat d + unat len \<le> 2 ^ 32"
  shows "fill_bytes m d c len x = (if unat d \<le> unat x \<and> unat x < unat d + unat len then c else m x)"
proof (cases "unat d \<le> unat x")
  case True
  then have "unat (x - d) = unat x - unat d" by (simp add: unat_sub word_le_nat_alt)
  with True show ?thesis by (auto simp: fill_bytes_def word_less_nat_alt)
next
  case False
  then have "unat len \<le> unat (x - d)" using assms by (intro unat_sub_ge) auto
  with False show ?thesis by (auto simp: fill_bytes_def word_less_nat_alt)
qed

lemma copy_bytes_at: "i < len \<Longrightarrow> copy_bytes m d src len (d + i) = m (src + i)"
  by (simp add: copy_bytes_def)

lemma adjust_nonzero: "adjust env n \<noteq> 0"
proof -
  have "unat (adjust env n) = 2 ^ (unat (32 - clz (n + HEADER_SIZE env - 1)) mod 32)"
    unfolding adjust_def shl_def by (rule unat_push_bit_1) simp
  then have "unat (adjust env n) \<noteq> 0" by simp
  then show ?thesis by (simp add: unat_eq_0)
qed

lemma reallocate_grow_cases:
  assumes p: "get_payloadSize s (ref - HEADER_SIZE env) = n" and g: "n < n2"
    and r: "reallocate env ref n2 s = Inr (ref', s')"
  shows "(ref' = ref \<and> HEAP_BASE env < ref \<and> adjust env n2 \<le> adjust env n \<and>
          mem s' = store32 (fill_bytes (mem s) (ref + n) 0 (n2 - n))
                     (ref - HEADER_SIZE env + 4) n2) \<or>
         (\<exists>q h m3. mem_allocate env (heap s) (adjust env n2) = Some (q, h) \<and>
            ref' = q + HEADER_SIZE env \<and>
            m3 = (if def_ref_collect env
                  then store32 (store32 (store32 (mem s) q
                         (get_classId s (ref - HEADER_SIZE env))) (q + 8) 0) (q + 12) 0
                  else store32 (mem s) q (get_classId s (ref - HEADER_SIZE env))) \<and>
            mem s' = store32 (fill_bytes (copy_bytes m3 (q + HEADER_SIZE env) ref n)
                       (q + HEADER_SIZE env + n) 0 (n2 - n)) (q + 4) n2)"
proof (cases "select (adjust env n) 0 (ref > HEAP_BASE env) < adjust env n2")
  case False
  then have "HEAP_BASE env < ref" "adjust env n2 \<le> adjust env n"
    using adjust_nonzero [of env n2] by (auto simp: select_def not_less split: if_splits)
  moreover from False p g r have "ref' = ref"
    "s' = set_payloadSize (ref - HEADER_SIZE env) n2 (memory_fill (ref + n) 0 (n2 - n) s)"
    by (auto simp: reallocate_def Let_def)
  ultimately show ?thesis
    by (simp add: header_fields header_offsets memory_fill_def record_event_def)
next
  case True
  have e: "reallocate env ref n2 s =
     (case memory_allocate env (adjust env n2) s of
        Inl e \<Rightarrow> Inl e
      | Inr (newHeader, s1) \<Rightarrow>
          let s2 = set_classId newHeader (get_classId s1 (ref - HEADER_SIZE env)) s1;
              s3 = (if def_ref_collect env
                    then set_reserved2 newHeader 0 (set_reserved1 newHeader 0 s2)
                    else s2);
              newRef = newHeader + HEADER_SIZE env;
              s4 = memory_copy newRef ref n s3;
              s5 = memory_fill (newRef + n) 0 (n2 - n) s4
          in case (if get_classId s5 (ref - HEADER_SIZE env) = HEADER_MAGIC then
                     (case assert env (ref > HEAP_BASE env) of
                        Inl e \<Rightarrow> Inl e
                      | Inr _ \<Rightarrow> Inr (memory_free env (ref - HEADER_SIZE env) s5))
                   else if def_ref_collect env then ref_register env ref s5
                   else Inr s5) of
               Inl e \<Rightarrow> Inl e
             | Inr s6 \<Rightarrow> Inr (newRef, set_payloadSize newHeader n2 s6))"
    using True p g unfolding reallocate_def Let_def by (simp only: if_True)
  from r obtain q s1 where a: "memory_allocate env (adjust env n2) s = Inr (q, s1)"
    unfolding e by (cases "memory_allocate env (adjust env n2) s") auto
  then obtain h where h: "mem_allocate env (heap s) (adjust env n2) = Some (q, h)"
    and s1: "s1 = record_event (Mem_allocate (adjust env n2) q) (s\<lparr>heap := h\<rparr>)"
    by (auto simp: memory_allocate_def split: option.splits)
  have m1: "mem s1 = mem s" by (simp add: s1 record_event_def)
  define s5 where "s5 =
     memory_fill (q + HEADER_SIZE env + n) 0 (n2 - n)
       (memory_copy (q + HEADER_SIZE env) ref n
         (if def_ref_collect env
          then set_reserved2 q 0 (set_reserved1 q 0 (set_classId q (get_classId s1 (ref - HEADER_SIZE env)) s1))
          else set_classId q (get_classId s1 (ref - HEADER_SIZE env)) s1))"
  define c where "c =
        (if get_classId s5 (ref - HEADER_SIZE env) = HEADER_MAGIC then
           (case assert env (ref > HEAP_BASE env) of
              Inl e \<Rightarrow> Inl e
            | Inr _ \<Rightarrow> Inr (memory_free env (ref - HEADER_SIZE env) s5))
         else if def_ref_collect env then ref_register env ref s5
         else Inr s5)"
  have "reallocate env ref n2 s =
          (case c of Inl e \<Rightarrow> Inl e
           | Inr s6 \<Rightarrow> Inr (q + HEADER_SIZE env, set_payloadSize q n2 s6))"
    unfolding e a c_def s5_def by (simp add: Let_def)
  with r obtain s6 where 6: "c = Inr s6"
    and r': "ref' = q + HEADER_SIZE env" "s' = set_payloadSize q n2 s6"
    by (cases c) auto
  from 6 have "mem s6 = mem s5"
    unfolding c_def
    by (auto simp: memory_free_def ref_register_def record_event_def assert_def
        split: if_splits sum.splits)
  then have "mem s' = store32 (mem s5) (q + 4) n2"
    by (simp add: r' header_fields header_offsets)
  moreover have "mem s5 = fill_bytes (copy_bytes
       (if def_ref_collect env
        then store32 (store32 (store32 (mem s) q
               (get_classId s (ref - HEADER_SIZE env))) (q + 8) 0) (q + 12) 0
        else store32 (mem s) q (get_classId s (ref - HEADER_SIZE env)))
       (q + HEADER_SIZE env) ref n) (q + HEADER_SIZE env + n) 0 (n2 - n)"
    by (simp add: s5_def memory_fill_def memory_copy_def record_event_def header_fields
        header_offsets m1)
  ultimately show ?thesis using h r' by simp
qed

text \<open>
  Claim C4. Grow round-trip: for \<open>ref = allocate(n)\<close> and \<open>n2 > n\<close>, every byte at the
  payload positions below \<open>n\<close> reads back unchanged after \<open>reallocate(ref, n2)\<close>, through
  the reference it returns, and every byte at the positions from \<open>n\<close> up to \<open>n2\<close> reads
  as zero. The object is described by what \<open>allocate(n)\<close> leaves and writes into the
  payload keep: a header at \<open>p\<close> that records the payload size \<open>n\<close>, in a block of
  \<open>adjust n\<close> bytes that does not wrap around the address space. The new size is within
  \<open>MAX_BYTELENGTH\<close>, and a block that the backing allocator hands out for the move
  does not wrap around and does not overlap the old one.
\<close>

theorem C4_grow_round_trip:
  assumes p: "get_payloadSize s p = n"
    and g: "n < n2" "n2 \<le> MAX_BYTELENGTH env"
    and ob: "unat p + unat (adjust env n) \<le> 2 ^ 32"
    and nb: "\<forall>q h. mem_allocate env (heap s) (adjust env n2) = Some (q, h) \<longrightarrow>
               unat q + unat (adjust env n2) \<le> 2 ^ 32 \<and>
               (unat q + unat (adjust env n2) \<le> unat p \<or>
                unat p + unat (adjust env n) \<le> unat q)"
    and r: "reallocate env (p + HEADER_SIZE env) n2 s = Inr (ref', s')"
  shows "(\<forall>i<n. mem s' (ref' + i) = mem s (p + HEADER_SIZE env + i)) \<and>
         (\<forall>i. n \<le> i \<and> i < n2 \<longrightarrow> mem s' (ref' + i) = 0)"
proof -
  define H where "H = unat (HEADER_SIZE env)"
  define A where "A = unat (adjust env n)"
  define A2 where "A2 = unat (adjust env n2)"
  define ref where "ref = p + HEADER_SIZE env"
  have H: "H = 8 \<or> H = 16" by (simp add: H_def unat_HEADER_SIZE)
  then have H8: "8 \<le> H" by auto
  have N: "unat n < unat n2" using g(1) by (simp add: word_less_nat_alt)
  have "n \<le> MAX_BYTELENGTH env" using g by simp
  then have c: "unat n + H \<le> A" unfolding H_def A_def by (rule adjust_covers)
  have c2: "unat n2 + H \<le> A2" unfolding H_def A2_def using g(2) by (rule adjust_covers)
  note ob' = ob [folded A_def]
  have ul: "unat (n2 - n) = unat n2 - unat n"
    using g(1) by (simp add: unat_sub word_le_nat_alt word_less_nat_alt)
  have hp: "ref - HEADER_SIZE env = p" by (simp add: ref_def)
  have old: "unat (ref + i) = unat p + H + unat i" if "i < n" for i
  proof -
    have i: "unat i < unat n" using that by (simp add: word_less_nat_alt)
    then have "unat ref = unat p + H"
      unfolding ref_def H_def using ob' c by (intro unat_plus) (simp add: H_def)
    then show ?thesis using i ob' c by (simp add: unat_plus)
  qed
  from reallocate_grow_cases [OF p [folded hp] g(1) r [folded ref_def]]
  consider
    (inplace) "ref' = ref" "adjust env n2 \<le> adjust env n"
      "mem s' = store32 (fill_bytes (mem s) (ref + n) 0 (n2 - n)) (p + 4) n2"
  | (move) q h m3 where "mem_allocate env (heap s) (adjust env n2) = Some (q, h)"
      "ref' = q + HEADER_SIZE env"
      "m3 = (if def_ref_collect env
             then store32 (store32 (store32 (mem s) q (get_classId s p)) (q + 8) 0) (q + 12) 0
             else store32 (mem s) q (get_classId s p))"
      "mem s' = store32 (fill_bytes (copy_bytes m3 (q + HEADER_SIZE env) ref n)
                  (q + HEADER_SIZE env + n) 0 (n2 - n)) (q + 4) n2"
    unfolding hp by blast
  then have "mem s' (ref' + i) = (if i < n then mem s (ref + i) else 0)" if i: "i < n2" for i
  proof cases
    case inplace
    have I: "unat i < unat n2" using i by (simp add: word_less_nat_alt)
    have "A2 \<le> A" using inplace(2) by (simp add: A_def A2_def word_le_nat_alt)
    then have top: "unat p + H + unat n2 \<le> 2 ^ 32" using ob' c2 by simp
    have uref: "unat ref = unat p + H"
      unfolding ref_def H_def using top N by (intro unat_plus) (simp add: H_def)
    have ux: "unat (ref + i) = unat p + H + unat i"
      using top I uref by (simp add: unat_plus)
    have ud: "unat (ref + n) = unat p + H + unat n"
      using top N uref by (simp add: unat_plus)
    have u4: "unat (p + 4) = unat p + 4"
      using top H8 by (simp add: unat_plus)
    have "mem s' (ref + i) = fill_bytes (mem s) (ref + n) 0 (n2 - n) (ref + i)"
      unfolding inplace(3) using top H8 ux u4 by (simp add: store32_miss)
    also have "\<dots> = (if i < n then mem s (ref + i) else 0)"
      using top N I ux ud ul by (subst fill_bytes_at) (auto simp: word_less_nat_alt)
    finally show ?thesis by (simp add: inplace(1))
  next
    case move
    have I: "unat i < unat n2" using i by (simp add: word_less_nat_alt)
    from nb move(1) have w: "unat q + A2 \<le> 2 ^ 32"
      and dj: "unat q + A2 \<le> unat p \<or> unat p + A \<le> unat q"
      by (auto simp: A_def A2_def)
    have top: "unat q + H + unat n2 \<le> 2 ^ 32" using w c2 by simp
    have unew: "unat (q + HEADER_SIZE env) = unat q + H"
      unfolding H_def using top N by (intro unat_plus) (simp add: H_def)
    have ux: "unat (q + HEADER_SIZE env + i) = unat q + H + unat i"
      using top I unew by (simp add: unat_plus)
    have ud: "unat (q + HEADER_SIZE env + n) = unat q + H + unat n"
      using top N unew by (simp add: unat_plus)
    have u4: "unat (q + 4) = unat q + 4"
      using top H8 by (simp add: unat_plus)
    have "mem s' (ref' + i) =
            fill_bytes (copy_bytes m3 (q + HEADER_SIZE env) ref n) (q + HEADER_SIZE env + n) 0
              (n2 - n) (q + HEADER_SIZE env + i)"
      unfolding move(4) move(2) using top H8 ux u4 by (simp add: store32_miss)
    also have "\<dots> = (if i < n then copy_bytes m3 (q + HEADER_SIZE env) ref n (q + HEADER_SIZE env + i) else 0)"
      using top N I ux ud ul by (subst fill_bytes_at) (auto simp: word_less_nat_alt)
    also have "\<dots> = (if i < n then m3 (ref + i) else 0)"
      by (simp add: copy_bytes_at)
    also have "\<dots> = (if i < n then mem s (ref + i) else 0)"
    proof (cases "i < n")
      case False
      then show ?thesis by simp
    next
      case True
      note o = old [OF True]
      have In: "unat i < unat n" using True by (simp add: word_less_nat_alt)
      show ?thesis
      proof (cases "def_ref_collect env")
        case gc: True
        then have h16: "H = 16" by (simp add: H_def unat_HEADER_SIZE)
        have u: "unat (q + 8) = unat q + 8" "unat (q + 12) = unat q + 12"
          using top h16 by (simp_all add: unat_plus)
        have "m3 (ref + i) = mem s (ref + i)"
          unfolding move(3) using gc dj w c c2 h16 u o In
          by (elim disjE) (simp_all add: store32_miss)
        with True show ?thesis by simp
      next
        case nogc: False
        have "m3 (ref + i) = mem s (ref + i)"
          unfolding move(3) using nogc dj w c c2 H8 o In
          by (elim disjE) (simp_all add: store32_miss)
        with True show ?thesis by simp
      qed
    qed
    finally show ?thesis .
  qed
  then show ?thesis using g(1) by (auto simp: ref_def)
qed

theorem C4_grow_round_trip_witness:
  "\<exists>s1 s'. allocate (arena_env False False) 8 (arena_start 0) = Inr (56, s1) \<and>
     get_payloadSize (store_u32 56 0x04030201 s1) 48 = 8 \<and>
     reallocate (arena_env False False) 56 100 (store_u32 56 0x04030201 s1) = Inr (72, s') \<and>
     mem s' 72 = 1 \<and> mem s' 73 = 2 \<and> mem s' 74 = 3 \<and> mem s' 75 = 4 \<and>
     mem s' 80 = 0 \<and> mem s' 171 = 0"
proof -
  let ?E = "arena_env False False"
  have e: "HEADER_SIZE ?E = 8" "adjust ?E 8 = 16" "adjust ?E 100 = 128"
    "HEAP_BASE ?E = 48" "mem_allocate ?E = arena_mem_allocate" "\<not> def_ref_collect ?E"
    "mem_free ?E = arena_mem_free"
    by (simp_all add: arena_eval)
  obtain s1 where a: "allocate ?E 8 (arena_start 0) = Inr (56, s1)"
    by (simp add: allocate_def arena_eval)
  define s where "s = store_u32 56 0x04030201 s1"
  from allocate_Inr [OF a] have s1: "heap s1 = 64"
    "mem s1 = store32 (store32 (mem (arena_start 0)) 48 HEADER_MAGIC) 52 8"
    by (auto simp: e arena_start_def arena_mem_allocate_def select_def)
  have hs: "heap s = 64"
    and ms: "mem s = store32 (store32 (store32 (mem (arena_start 0)) 48 HEADER_MAGIC) 52 8) 56 0x04030201"
    by (simp_all add: s_def store_u32_def s1)
  have p: "get_payloadSize s 48 = 8" and cl: "get_classId s 48 = HEADER_MAGIC"
    by (simp_all add: header_fields header_offsets ms load32_store32 load32_store32_disjoint)
  have b: "mem s 56 = 1" "mem s 57 = 2" "mem s 58 = 3" "mem s 59 = 4"
    by (simp_all add: ms store32_def)
  have ma: "memory_allocate ?E 128 s =
      Inr (64, record_event (Mem_allocate 128 64) (s\<lparr>heap := 192\<rparr>))"
    by (simp add: memory_allocate_def e hs) (simp add: arena_mem_allocate_def select_def)
  have cl1: "get_classId (record_event (Mem_allocate 128 64) (s\<lparr>heap := 192\<rparr>)) 48 = HEADER_MAGIC"
    using cl by (simp add: header_fields record_event_def)
  have c5: "get_classId
      (memory_fill (64 + 8 + 8) 0 (100 - 8)
        (memory_copy (64 + 8) 56 8
          (set_classId 64 HEADER_MAGIC (record_event (Mem_allocate 128 64) (s\<lparr>heap := 192\<rparr>))))) 48
      = HEADER_MAGIC"
    using cl
    by (simp add: header_fields header_offsets memory_fill_def memory_copy_def record_event_def
        load32_def fill_bytes_def copy_bytes_def store32_def)
  obtain s' where r: "reallocate ?E (48 + HEADER_SIZE ?E) 100 s = Inr (72, s')"
    using c5 by (simp add: reallocate_def Let_def e p select_def ma assert_def cl1)
  have g: "(8 :: usize) < 100" "100 \<le> MAX_BYTELENGTH ?E"
    by (simp_all add: arena_eval)
  have ob: "unat (48 :: usize) + unat (adjust ?E 8) \<le> 2 ^ 32"
    by (simp add: e)
  have nb: "\<forall>q h. mem_allocate ?E (heap s) (adjust ?E 100) = Some (q, h) \<longrightarrow>
               unat q + unat (adjust ?E 100) \<le> 2 ^ 32 \<and>
               (unat q + unat (adjust ?E 100) \<le> unat (48 :: usize) \<or>
                unat (48 :: usize) + unat (adjust ?E 8) \<le> unat q)"
    by (auto simp: e hs arena_mem_allocate_def select_def)
  from C4_grow_round_trip [OF p g ob nb r]
  have k: "\<forall>i<8. mem s' (72 + i) = mem s (56 + i)"
    "\<forall>i. 8 \<le> i \<and> i < 100 \<longrightarrow> mem s' (72 + i) = 0"
    by (simp_all add: e)
  have "mem s' 72 = 1" "mem s' 73 = 2" "mem s' 74 = 3" "mem s' 75 = 4"
    using k(1) [rule_format, of 0] k(1) [rule_format, of 1] k(1) [rule_format, of 2]
      k(1) [rule_format, of 3] b by simp_all
  moreover have "mem s' 80 = 0" "mem s' 171 = 0"
    using k(2) [rule_format, of 8] k(2) [rule_format, of 99] by simp_all
  ultimately show ?thesis using a p r by (auto simp: s_def e)
qed

text \<open>
  Claim C1 says that \<open>reallocate\<close>, when it moves an object that is already registered,
  calls the register hook of the collector with the new reference. Run on the arena
  build with a collector: an object of 8 bytes is allocated at 64 and registered, then
  grown to 100 bytes. The object moves to 96, and the calls recorded end with the
  register hook called on 64, the old reference.
\<close>

theorem C1_reallocate_registers_old_reference:
  "\<exists>s1 s2 s3. allocate (arena_env True False) 8 (arena_start 0) = Inr (64, s1) \<and>
     register (arena_env True False) 64 7 s1 = Inr (64, s2) \<and>
     reallocate (arena_env True False) 64 100 s2 = Inr (96, s3) \<and>
     trace s3 =
       [Mem_allocate 32 48, Ref_register 64,
        Mem_allocate 128 80, Mem_copy 96 64 8, Mem_fill 104 0 92, Ref_register 64]"
proof -
  let ?E = "arena_env True False"
  have e: "HEADER_SIZE ?E = 16" "adjust ?E 8 = 32" "adjust ?E 100 = 128"
    "HEAP_BASE ?E = 48" "mem_allocate ?E = arena_mem_allocate" "def_ref_collect ?E"
    "def_ref_register ?E" "\<not> ASC_NO_ASSERT ?E"
    by (simp_all add: arena_eval)
  obtain s1 where a: "allocate ?E 8 (arena_start 0) = Inr (64, s1)"
    by (simp add: allocate_def arena_eval)
  from allocate_Inr [OF a] have s1: "heap s1 = 80" "trace s1 = [Mem_allocate 32 48]"
    by (auto simp: e arena_start_def arena_mem_allocate_def select_def)
  have c1: "get_classId s1 (64 - HEADER_SIZE ?E) = HEADER_MAGIC"
    and p1: "get_payloadSize s1 48 = 8"
    using allocate_fresh_header [of ?E 8 "arena_start 0" 48 s1] a by (simp_all add: e)
  obtain s2 where r: "register ?E 64 7 s1 = Inr (64, s2)"
    using register_ok [of ?E 64 s1 7] c1 by (auto simp: e)
  from register_Inr [OF r] have s2: "heap s2 = 80"
    "trace s2 = [Mem_allocate 32 48, Ref_register 64]" "mem s2 = store32 (mem s1) 48 7"
    by (simp_all add: e s1)
  have p2: "get_payloadSize s2 48 = 8" and c2: "get_classId s2 48 = 7"
    using p1 by (simp_all add: header_fields header_offsets s2 load32_store32 load32_store32_disjoint)
  define t where "t = record_event (Mem_allocate 128 80) (s2\<lparr>heap := 208\<rparr>)"
  have ma: "memory_allocate ?E 128 s2 = Inr (80, t)"
    by (simp add: memory_allocate_def e s2 t_def) (simp add: arena_mem_allocate_def select_def)
  have ct: "get_classId t 48 = 7"
    using c2 by (simp add: header_fields record_event_def t_def)
  define s5 where "s5 =
     memory_fill (80 + 16 + 8) 0 (100 - 8)
       (memory_copy (80 + 16) 64 8
         (set_reserved2 80 0 (set_reserved1 80 0 (set_classId 80 7 t))))"
  have "mem s5 48 = mem s2 48" "mem s5 49 = mem s2 49" "mem s5 50 = mem s2 50" "mem s5 51 = mem s2 51"
    by (simp_all add: s5_def t_def header_fields header_offsets memory_fill_def memory_copy_def
        record_event_def fill_bytes_def copy_bytes_def store32_def)
  then have c5: "get_classId s5 48 = 7"
    using c2 by (simp add: header_fields header_offsets load32_def)
  have t5: "trace s5 = [Mem_allocate 32 48, Ref_register 64,
        Mem_allocate 128 80, Mem_copy 96 64 8, Mem_fill 104 0 92]"
    by (simp add: s5_def t_def header_fields memory_fill_def memory_copy_def record_event_def s2)
  have "reallocate ?E 64 100 s2 =
          Inr (96, set_payloadSize 80 100 (record_event (Ref_register 64) s5))"
    using c5 by (simp add: reallocate_def Let_def e p2 select_def ma ct ref_register_def
        HEADER_MAGIC_def s5_def)
  moreover have "trace (set_payloadSize 80 100 (record_event (Ref_register 64) s5)) =
      [Mem_allocate 32 48, Ref_register 64,
        Mem_allocate 128 80, Mem_copy 96 64 8, Mem_fill 104 0 92, Ref_register 64]"
    by (simp add: header_fields record_event_def t5)
  ultimately show ?thesis using a r by blast
qed

end
